theory Spec2Isabelle
  imports Main
begin

section \<open>JavaScript values and string helpers\<close>

text \<open>
  The tracker (\<^verbatim>\<open>src/activity-tracker.js\<close>) reads loosely typed DOM properties and
  stores plain objects. Both are modelled by one tree of JavaScript values. Numbers are
  the integers (pixel counts and millisecond clocks); strings are lists of characters, a
  character being a code unit from U+0000 to U+00FF.
\<close>

datatype jsv =
    Undefined
  | Null
  | Bool bool
  | Num int
  | Str string
  | Arr "jsv list"
  | Obj "(string \<times> jsv) list"

datatype error = TypeError

text \<open>JavaScript truthiness, as tested by \<^verbatim>\<open>if (v)\<close> and \<^verbatim>\<open>v || d\<close>.\<close>

fun truthy :: "jsv \<Rightarrow> bool" where
  "truthy Undefined = False"
| "truthy Null = False"
| "truthy (Bool b) = b"
| "truthy (Num n) = (n \<noteq> 0)"
| "truthy (Str s) = (s \<noteq> [])"
| "truthy (Arr xs) = True"
| "truthy (Obj kvs) = True"

text \<open>\<^verbatim>\<open>a || b\<close> on values.\<close>

definition orElse :: "jsv \<Rightarrow> jsv \<Rightarrow> jsv" where
  "orElse a b = (if truthy a then a else b)"

text \<open>
  \<^verbatim>\<open>String.prototype.toLowerCase\<close>, character by character. Among the characters U+0000
  to U+00FF the capital letters are A to Z (65 to 90), U+00C0 to U+00D6 (192 to 214) and
  U+00D8 to U+00DE (216 to 222); each has its small letter 32 places above. Every other
  character of the range is kept, the multiplication sign U+00D7 among them.
\<close>

definition lowerChar :: "char \<Rightarrow> char" where
  "lowerChar c =
     (let n = (of_char c :: nat) in
      if (65 \<le> n \<and> n \<le> 90) \<or> (192 \<le> n \<and> n \<le> 214) \<or> (216 \<le> n \<and> n \<le> 222)
      then char_of (n + 32) else c)"

definition lowerStr :: "string \<Rightarrow> string" where
  "lowerStr s = map lowerChar s"

text \<open>
  The method call \<^verbatim>\<open>v.toLowerCase()\<close>: only a string has the method; on
  \<^verbatim>\<open>undefined\<close>, \<^verbatim>\<open>null\<close> or any other value the call raises a TypeError.
\<close>

fun toLowerCase :: "jsv \<Rightarrow> error + string" where
  "toLowerCase (Str s) = Inr (lowerStr s)"
| "toLowerCase v = Inl TypeError"

text \<open>The optional call \<^verbatim>\<open>v?.toLowerCase()\<close>: \<^verbatim>\<open>undefined\<close> when \<open>v\<close> is nullish.\<close>

fun optToLowerCase :: "jsv \<Rightarrow> error + jsv" where
  "optToLowerCase Undefined = Inr Undefined"
| "optToLowerCase Null = Inr Undefined"
| "optToLowerCase (Str s) = Inr (Str (lowerStr s))"
| "optToLowerCase v = Inl TypeError"

text \<open>Decimal rendering of a number, as string conversion and template literals produce it.\<close>

fun showNat :: "nat \<Rightarrow> string" where
  "showNat n =
     (if n < 10 then [''0123456789'' ! n]
      else showNat (n div 10) @ [''0123456789'' ! (n mod 10)])"

declare showNat.simps [simp del]

definition showInt :: "int \<Rightarrow> string" where
  "showInt i = (if i < 0 then CHR ''-'' # showNat (nat (- i)) else showNat (nat i))"

text \<open>\<^verbatim>\<open>Array.prototype.join\<close> on strings.\<close>

fun join :: "string \<Rightarrow> string list \<Rightarrow> string" where
  "join sep [] = []"
| "join sep [x] = x"
| "join sep (x # y # ys) = x @ sep @ join sep (y # ys)"

text \<open>
  String conversion of a value (\<^verbatim>\<open>`${v}`\<close>, \<^verbatim>\<open>v + '/'\<close>): \<^verbatim>\<open>undefined\<close> and
  \<^verbatim>\<open>null\<close> become their names, an array joins its elements with commas (a nullish
  element gives the empty string), a plain object gives \<^verbatim>\<open>[object Object]\<close>.
\<close>

fun toString :: "jsv \<Rightarrow> string" where
  "toString Undefined = ''undefined''"
| "toString Null = ''null''"
| "toString (Bool b) = (if b then ''true'' else ''false'')"
| "toString (Num n) = showInt n"
| "toString (Str s) = s"
| "toString (Arr xs) =
     join '','' (map (\<lambda>x. if x = Undefined \<or> x = Null then [] else toString x) xs)"
| "toString (Obj kvs) = ''[object Object]''"

text \<open>
  \<^verbatim>\<open>s.split(' ')\<close>: the pieces between single spaces, empty pieces included; the
  accumulator holds the current piece reversed.
\<close>

fun splitOn :: "char \<Rightarrow> string \<Rightarrow> string \<Rightarrow> string list" where
  "splitOn sep cur [] = [rev cur]"
| "splitOn sep cur (c # cs) =
     (if c = sep then rev cur # splitOn sep [] cs else splitOn sep (c # cur) cs)"

definition splitStr :: "char \<Rightarrow> string \<Rightarrow> string list" where
  "splitStr sep s = splitOn sep [] s"

section \<open>The document tree\<close>

text \<open>
  A node of the DOM is addressed by a reference; the document is a store from references
  to nodes. Each node carries the properties the tracker reads. \<open>tagName\<close> is a string on
  element nodes and absent on all others; \<open>parentNode\<close> is absent on a detached node and
  on the document node; \<open>childNodes\<close> lists the children in document order, text and
  comment nodes included.
\<close>

type_synonym ref = nat

record node =
  nodeType :: nat
  tagName :: "string option"
  id_prop :: jsv
  className :: jsv
  type_prop :: jsv
  innerText :: jsv
  href :: jsv
  name_prop :: jsv
  value_prop :: jsv
  computedStyle :: "string \<Rightarrow> string"
  parentNode :: "ref option"
  childNodes :: "ref list"

record document =
  nodes :: "ref \<Rightarrow> node"
  body :: "ref option"

text \<open>The value of \<^verbatim>\<open>element.tagName\<close>.\<close>

definition tagNameV :: "node \<Rightarrow> jsv" where
  "tagNameV n = (case tagName n of None \<Rightarrow> Undefined | Some t \<Rightarrow> Str t)"

text \<open>\<^verbatim>\<open>element.parentElement\<close>: the parent when it is an element node (type 1).\<close>

definition parentElement :: "document \<Rightarrow> ref \<Rightarrow> ref option" where
  "parentElement doc e =
     (case parentNode (nodes doc e) of
        None \<Rightarrow> None
      | Some p \<Rightarrow> if nodeType (nodes doc p) = 1 then Some p else None)"

text \<open>
  The chain \<^verbatim>\<open>e.previousElementSibling\<close>, its \<^verbatim>\<open>previousElementSibling\<close>, and so on:
  the element nodes before \<open>e\<close> in its parent's child list, nearest first.
\<close>

definition previousElementSiblings :: "document \<Rightarrow> ref \<Rightarrow> ref list" where
  "previousElementSiblings doc e =
     (case parentNode (nodes doc e) of
        None \<Rightarrow> []
      | Some p \<Rightarrow>
          rev (filter (\<lambda>s. nodeType (nodes doc s) = 1)
                 (takeWhile (\<lambda>s. s \<noteq> e) (childNodes (nodes doc p)))))"

section \<open>Event object type detection\<close>

text \<open>The \<^verbatim>\<open>switch (type)\<close> of \<^verbatim>\<open>getEventObjectType\<close> over the lower-cased input type.\<close>

definition inputTypeSwitch :: "jsv \<Rightarrow> string" where
  "inputTypeSwitch ty =
     (if ty = Str ''text'' \<or> ty = Str ''password'' \<or> ty = Str ''email''
         \<or> ty = Str ''search'' \<or> ty = Str ''tel'' \<or> ty = Str ''url'' then ''TEXT_FIELD''
      else if ty = Str ''checkbox'' then ''CHECKBOX''
      else if ty = Str ''radio'' then ''RADIO_BUTTON''
      else if ty = Str ''file'' then ''FILE_UPLOAD''
      else if ty = Str ''submit'' \<or> ty = Str ''button'' then ''BUTTON''
      else if ty = Str ''range'' then ''SLIDER''
      else if ty = Str ''date'' \<or> ty = Str ''time'' \<or> ty = Str ''datetime-local''
        then ''DATE_PICKER''
      else if ty = Str ''color'' then ''COLOR_PICKER''
      else ''INPUT_FIELD'')"

text \<open>The \<^verbatim>\<open>switch (tagName)\<close> of \<^verbatim>\<open>getEventObjectType\<close>.\<close>

definition tagSwitch :: "string \<Rightarrow> string" where
  "tagSwitch t =
     (if t = ''a'' then ''LINK''
      else if t = ''button'' then ''BUTTON''
      else if t = ''img'' then ''IMAGE''
      else if t = ''video'' then ''VIDEO''
      else if t = ''audio'' then ''AUDIO''
      else if t = ''iframe'' then ''IFRAME''
      else if t = ''canvas'' then ''CANVAS''
      else if t = ''svg'' then ''SVG''
      else if t = ''table'' then ''TABLE''
      else if t = ''ul'' \<or> t = ''ol'' then ''LIST''
      else if t = ''li'' then ''LIST_ITEM''
      else if t = ''div'' then ''CONTAINER''
      else if t = ''span'' then ''TEXT_SPAN''
      else if t = ''p'' then ''PARAGRAPH''
      else if t = ''h1'' \<or> t = ''h2'' \<or> t = ''h3'' \<or> t = ''h4'' \<or> t = ''h5'' \<or> t = ''h6''
        then ''HEADING''
      else if t = ''form'' then ''FORM''
      else if t = ''label'' then ''LABEL''
      else if t = ''nav'' then ''NAVIGATION''
      else if t = ''header'' then ''HEADER''
      else if t = ''footer'' then ''FOOTER''
      else if t = ''section'' then ''SECTION''
      else if t = ''article'' then ''ARTICLE''
      else if t = ''main'' then ''MAIN_CONTENT''
      else ''ELEMENT'')"

definition getEventObjectType :: "node \<Rightarrow> error + string" where
  "getEventObjectType element =
     (case toLowerCase (tagNameV element) of
        Inl err \<Rightarrow> Inl err
      | Inr tag \<Rightarrow>
          if tag \<in> set [''input'', ''textarea'', ''select''] then
            if tag = ''select'' then Inr ''DROP_DOWN''
            else (case optToLowerCase (type_prop element) of
                    Inl err \<Rightarrow> Inl err
                  | Inr ty \<Rightarrow> Inr (inputTypeSwitch ty))
          else Inr (tagSwitch tag))"

text \<open>The two tables of the classifier as the specification words them.\<close>

definition subtypeTable :: "(string \<times> string) list" where
  "subtypeTable =
     [(''text'', ''TEXT_FIELD''), (''password'', ''TEXT_FIELD''), (''email'', ''TEXT_FIELD''),
      (''search'', ''TEXT_FIELD''), (''tel'', ''TEXT_FIELD''), (''url'', ''TEXT_FIELD''),
      (''checkbox'', ''CHECKBOX''), (''radio'', ''RADIO_BUTTON''), (''file'', ''FILE_UPLOAD''),
      (''submit'', ''BUTTON''), (''button'', ''BUTTON''), (''range'', ''SLIDER''),
      (''date'', ''DATE_PICKER''), (''time'', ''DATE_PICKER''),
      (''datetime-local'', ''DATE_PICKER''), (''color'', ''COLOR_PICKER'')]"

definition tagTable :: "(string \<times> string) list" where
  "tagTable =
     [(''a'', ''LINK''), (''button'', ''BUTTON''), (''img'', ''IMAGE''), (''video'', ''VIDEO''),
      (''audio'', ''AUDIO''), (''iframe'', ''IFRAME''), (''canvas'', ''CANVAS''),
      (''svg'', ''SVG''), (''table'', ''TABLE''), (''ul'', ''LIST''), (''ol'', ''LIST''),
      (''li'', ''LIST_ITEM''), (''div'', ''CONTAINER''), (''span'', ''TEXT_SPAN''),
      (''p'', ''PARAGRAPH''), (''h1'', ''HEADING''), (''h2'', ''HEADING''),
      (''h3'', ''HEADING''), (''h4'', ''HEADING''), (''h5'', ''HEADING''),
      (''h6'', ''HEADING''), (''form'', ''FORM''), (''label'', ''LABEL''),
      (''nav'', ''NAVIGATION''), (''header'', ''HEADER''), (''footer'', ''FOOTER''),
      (''section'', ''SECTION''), (''article'', ''ARTICLE''), (''main'', ''MAIN_CONTENT'')]"

text \<open>
  The classifier in the specification's words, on the lower-cased tag and the subtype
  string when the element has one.
\<close>

definition classify_spec :: "string \<Rightarrow> string option \<Rightarrow> string" where
  "classify_spec tag subtype =
     (if tag = ''input'' \<or> tag = ''textarea'' \<or> tag = ''select'' then
        if tag = ''select'' then ''DROP_DOWN''
        else (case subtype of
                None \<Rightarrow> ''INPUT_FIELD''
              | Some s \<Rightarrow> (case map_of subtypeTable (lowerStr s) of
                            Some l \<Rightarrow> l
                          | None \<Rightarrow> ''INPUT_FIELD''))
      else (case map_of tagTable tag of Some l \<Rightarrow> l | None \<Rightarrow> ''ELEMENT''))"

text \<open>The labels the classifier can return.\<close>

definition categoryLabels :: "string list" where
  "categoryLabels =
     ''DROP_DOWN'' # ''INPUT_FIELD'' # ''ELEMENT'' # map snd subtypeTable @ map snd tagTable"

text \<open>The subtype string of an element, absent when \<^verbatim>\<open>element.type\<close> is not a string.\<close>

fun subtypeOf :: "jsv \<Rightarrow> string option" where
  "subtypeOf (Str s) = Some s"
| "subtypeOf v = None"

section \<open>Locators\<close>

subsection \<open>The CSS selector\<close>

text \<open>
  The inner loop of \<^verbatim>\<open>getCssSelector\<close>: the counter \<^verbatim>\<open>nth\<close> starts at 1 and
  grows by one for each previous element sibling whose \<open>tagName\<close> equals the element's.
\<close>

fun countNth :: "document \<Rightarrow> string option \<Rightarrow> ref list \<Rightarrow> nat \<Rightarrow> nat" where
  "countNth doc tag [] nthv = nthv"
| "countNth doc tag (sibling # rest) nthv =
     countNth doc tag rest (if tagName (nodes doc sibling) = tag then nthv + 1 else nthv)"

text \<open>
  The outer loop \<^verbatim>\<open>while (element.parentElement)\<close>. Each iteration takes one unit of
  fuel, and so does the last test of the loop condition; \<open>None\<close> is a walk that has not
  ended within the fuel. \<open>path\<close> is the array built by \<^verbatim>\<open>unshift\<close>.
\<close>

fun cssWalk :: "nat \<Rightarrow> document \<Rightarrow> ref \<Rightarrow> string list \<Rightarrow> (error + string) option" where
  "cssWalk 0 doc element path = None"
| "cssWalk (Suc fuel) doc element path =
     (case parentElement doc element of
        None \<Rightarrow> Some (Inr (join '' > '' path))
      | Some parent \<Rightarrow>
          (case toLowerCase (tagNameV (nodes doc element)) of
             Inl err \<Rightarrow> Some (Inl err)
           | Inr selector \<Rightarrow>
               if truthy (id_prop (nodes doc element)) then
                 Some (Inr (join '' > ''
                   ((selector @ ''#'' @ toString (id_prop (nodes doc element))) # path)))
               else
                 let nthv = countNth doc (tagName (nodes doc element))
                              (previousElementSiblings doc element) 1;
                     selector' = (if nthv > 1
                                  then selector @ '':nth-of-type('' @ showNat nthv @ '')''
                                  else selector)
                 in cssWalk fuel doc parent (selector' # path)))"

definition getCssSelector :: "nat \<Rightarrow> document \<Rightarrow> ref \<Rightarrow> (error + string) option" where
  "getCssSelector fuel doc element =
     (let el = nodes doc element in
      if truthy (id_prop el) then Some (Inr (''#'' @ toString (id_prop el)))
      else if truthy (className el) then
        (case className el of
           Str s \<Rightarrow>
             (case toLowerCase (tagNameV el) of
                Inl err \<Rightarrow> Some (Inl err)
              | Inr tag \<Rightarrow>
                  Some (Inr (tag @ ''.''
                    @ join ''.'' (filter (\<lambda>c. c \<noteq> []) (splitStr (CHR '' '') s)))))
         | _ \<Rightarrow> Some (Inl TypeError))
      else cssWalk fuel doc element [])"

subsection \<open>The XPath\<close>

text \<open>
  The \<^verbatim>\<open>for\<close> loop of \<^verbatim>\<open>getXPath\<close> up to the sibling that is the element: \<open>ix\<close>
  counts the earlier siblings of node type 1 with the element's \<open>tagName\<close>. \<open>None\<close> is
  the loop running off the end of the list.
\<close>

fun xpathIndex :: "document \<Rightarrow> ref \<Rightarrow> ref list \<Rightarrow> nat \<Rightarrow> nat option" where
  "xpathIndex doc element [] ix = None"
| "xpathIndex doc element (sibling # rest) ix =
     (if sibling = element then Some ix
      else xpathIndex doc element rest
             (if nodeType (nodes doc sibling) = 1
                 \<and> tagName (nodes doc sibling) = tagName (nodes doc element)
              then ix + 1 else ix))"

text \<open>
  \<^verbatim>\<open>getXPath\<close>; each call takes one unit of fuel, so the fuel bounds the depth of the
  recursion. A call that falls off the end of the function returns \<^verbatim>\<open>undefined\<close>.
\<close>

fun getXPath :: "nat \<Rightarrow> document \<Rightarrow> ref \<Rightarrow> (error + jsv) option" where
  "getXPath 0 doc element = None"
| "getXPath (Suc fuel) doc element =
     (let el = nodes doc element in
      if truthy (id_prop el) then
        Some (Inr (Str (''//*[@id=\"'' @ toString (id_prop el) @ ''\"]'')))
      else if body doc = Some element then Some (Inr (Str ''/html/body''))
      else
        (case parentNode el of
           None \<Rightarrow> Some (Inr Undefined)
         | Some parent \<Rightarrow>
             (case xpathIndex doc element (childNodes (nodes doc parent)) 0 of
                None \<Rightarrow> Some (Inr Undefined)
              | Some ix \<Rightarrow>
                  (case getXPath fuel doc parent of
                     None \<Rightarrow> None
                   | Some (Inl err) \<Rightarrow> Some (Inl err)
                   | Some (Inr parentPath) \<Rightarrow>
                       (case toLowerCase (tagNameV el) of
                          Inl err \<Rightarrow> Some (Inl err)
                        | Inr tag \<Rightarrow>
                            Some (Inr (Str (toString parentPath @ ''/'' @ tag
                              @ ''['' @ showNat (ix + 1) @ '']''))))))))"

subsection \<open>The locators in the specification's words\<close>

text \<open>
  The 1-based occurrence index of an element among the preceding element siblings of
  the same tag name.
\<close>

definition nthOfType :: "document \<Rightarrow> ref \<Rightarrow> nat" where
  "nthOfType doc e =
     1 + length (filter (\<lambda>s. tagName (nodes doc s) = tagName (nodes doc e))
                   (previousElementSiblings doc e))"

definition segment :: "document \<Rightarrow> ref \<Rightarrow> string \<Rightarrow> string" where
  "segment doc e t =
     (if nthOfType doc e > 1
      then lowerStr t @ '':nth-of-type('' @ showNat (nthOfType doc e) @ '')''
      else lowerStr t)"

text \<open>
  The segments of the path of an element, ancestor first. An element without a parent
  element ends the walk and contributes nothing, whether it has an id or not; below it,
  the first element with an id ends the walk as \<open>tag#id\<close>.
\<close>

inductive cssSegments :: "document \<Rightarrow> ref \<Rightarrow> string list \<Rightarrow> bool" for doc where
  Root: "parentElement doc e = None \<Longrightarrow> cssSegments doc e []"
| Anchor: "parentElement doc e = Some p \<Longrightarrow> truthy (id_prop (nodes doc e))
     \<Longrightarrow> tagName (nodes doc e) = Some t
     \<Longrightarrow> cssSegments doc e [lowerStr t @ ''#'' @ toString (id_prop (nodes doc e))]"
| Level: "parentElement doc e = Some p \<Longrightarrow> \<not> truthy (id_prop (nodes doc e))
     \<Longrightarrow> tagName (nodes doc e) = Some t
     \<Longrightarrow> cssSegments doc p segs
     \<Longrightarrow> cssSegments doc e (segs @ [segment doc e t])"

code_pred (modes: i \<Rightarrow> i \<Rightarrow> o \<Rightarrow> bool, i \<Rightarrow> i \<Rightarrow> i \<Rightarrow> bool) cssSegments .

text \<open>
  The segments as the specification words the walk: the first ancestor with an id ends
  the walk and is included as \<open>tag#id\<close>, wherever it stands; otherwise the walk ends at
  the root.
\<close>

inductive cssSegments_claimed :: "document \<Rightarrow> ref \<Rightarrow> string list \<Rightarrow> bool" for doc where
  ClaimedAnchor: "truthy (id_prop (nodes doc e)) \<Longrightarrow> tagName (nodes doc e) = Some t
     \<Longrightarrow> cssSegments_claimed doc e [lowerStr t @ ''#'' @ toString (id_prop (nodes doc e))]"
| ClaimedRoot: "\<not> truthy (id_prop (nodes doc e)) \<Longrightarrow> parentElement doc e = None
     \<Longrightarrow> cssSegments_claimed doc e []"
| ClaimedLevel: "\<not> truthy (id_prop (nodes doc e)) \<Longrightarrow> parentElement doc e = Some p
     \<Longrightarrow> tagName (nodes doc e) = Some t
     \<Longrightarrow> cssSegments_claimed doc p segs
     \<Longrightarrow> cssSegments_claimed doc e (segs @ [segment doc e t])"

code_pred (modes: i \<Rightarrow> i \<Rightarrow> o \<Rightarrow> bool, i \<Rightarrow> i \<Rightarrow> i \<Rightarrow> bool) cssSegments_claimed .

text \<open>
  \<open>elementPath doc e\<close>: following \<open>parentElement\<close> from \<open>e\<close> reaches an element without a
  parent element after finitely many steps, and every node passed on the way is an
  element, that is, has a tag name. Every element of a document tree is such.
\<close>

inductive elementPath :: "document \<Rightarrow> ref \<Rightarrow> bool" for doc where
  Start: "parentElement doc e = None \<Longrightarrow> elementPath doc e"
| Up: "parentElement doc e = Some p \<Longrightarrow> tagName (nodes doc e) = Some t
     \<Longrightarrow> elementPath doc p \<Longrightarrow> elementPath doc e"

code_pred (modes: i \<Rightarrow> i \<Rightarrow> bool) elementPath .

text \<open>
  The index \<open>k\<close> of the XPath step: the element-type siblings before the element in the
  child list that share its tag name, with the element itself counted last.
\<close>

definition xpathPosition :: "document \<Rightarrow> ref \<Rightarrow> ref \<Rightarrow> nat" where
  "xpathPosition doc e p =
     length (filter (\<lambda>s. nodeType (nodes doc s) = 1
                          \<and> tagName (nodes doc s) = tagName (nodes doc e))
               (takeWhile (\<lambda>s. s \<noteq> e) (childNodes (nodes doc p)))) + 1"

text \<open>
  \<open>hasDepth doc n k\<close>: following \<open>parentNode\<close> from \<open>n\<close> reaches a node without a parent
  after exactly \<open>k\<close> steps, that is, \<open>n\<close> lies at depth \<open>k\<close> of a finite tree.
\<close>

inductive hasDepth :: "document \<Rightarrow> ref \<Rightarrow> nat \<Rightarrow> bool" for doc where
  Top: "parentNode (nodes doc n) = None \<Longrightarrow> hasDepth doc n 0"
| Below: "parentNode (nodes doc n) = Some p \<Longrightarrow> hasDepth doc p k
     \<Longrightarrow> hasDepth doc n (Suc k)"

code_pred (modes: i \<Rightarrow> i \<Rightarrow> o \<Rightarrow> bool, i \<Rightarrow> i \<Rightarrow> i \<Rightarrow> bool) hasDepth .

section \<open>The tracker state and the event handlers\<close>

text \<open>
  The global \<^verbatim>\<open>ActivityTracker\<close> object. Event records are plain objects, kept as
  values. Console output has no effect on the state and is left out.
\<close>

record sessionInfo =
  sessionId :: "string option"
  startTime :: "string option"
  pageUrl :: string
  userAgent :: string
  screenResolution :: string
  viewport :: string

record trackerConfig =
  logToConsole :: bool
  logDetailedInfo :: bool
  trackMouseMovement :: bool
  trackScrolling :: bool
  trackFormInputs :: bool
  groupSimilarEvents :: bool

record activityTracker =
  events :: "jsv list"
  session :: sessionInfo
  config :: trackerConfig

text \<open>
  What a handler reads from the browser when it runs: the clock (\<^verbatim>\<open>Date.now()\<close> and
  the ISO rendering of \<^verbatim>\<open>new Date()\<close>) and the window metrics. The scroll percentage
  is the number that the floating-point expression of \<^verbatim>\<open>handleScrollEvent\<close> yields; it
  is taken from the environment.
\<close>

record env =
  dateNow :: int
  isoString :: string
  innerWidth :: int
  innerHeight :: int
  scrollX :: int
  scrollY :: int
  scrollHeight :: int
  scrollPercentage :: jsv

record uiEvent =
  target :: ref
  clientX :: int
  clientY :: int
  pageX :: int
  pageY :: int

text \<open>Property access \<^verbatim>\<open>v.k\<close> on a stored value; a later entry of a key wins.\<close>

fun getField :: "string \<Rightarrow> jsv \<Rightarrow> jsv" where
  "getField k (Obj kvs) = (case map_of (rev kvs) k of Some v \<Rightarrow> v | None \<Rightarrow> Undefined)"
| "getField k v = Undefined"

text \<open>
  The class list of an element, as the DOM defines it: the tokens of its class attribute,
  split at ASCII white space (tab, line feed, form feed, carriage return, space), in
  order. \<^verbatim>\<open>className\<close> holds the attribute as a string on an HTML element, and as the
  field \<^verbatim>\<open>baseVal\<close> of an object on an SVG element.
\<close>

definition isAsciiWhitespace :: "char \<Rightarrow> bool" where
  "isAsciiWhitespace c = (c \<in> set [CHR 0x09, CHR 0x0A, CHR 0x0C, CHR 0x0D, CHR '' ''])"

fun tokensFrom :: "string \<Rightarrow> string \<Rightarrow> string list" where
  "tokensFrom cur [] = (if cur = [] then [] else [rev cur])"
| "tokensFrom cur (c # cs) =
     (if isAsciiWhitespace c
      then (if cur = [] then tokensFrom [] cs else rev cur # tokensFrom [] cs)
      else tokensFrom (c # cur) cs)"

definition classAttribute :: "node \<Rightarrow> string option" where
  "classAttribute el =
     (case className el of
        Str s \<Rightarrow> Some s
      | Obj kvs \<Rightarrow> (case getField ''baseVal'' (Obj kvs) of Str s \<Rightarrow> Some s | _ \<Rightarrow> None)
      | _ \<Rightarrow> None)"

definition classList :: "node \<Rightarrow> string list" where
  "classList el = (case classAttribute el of None \<Rightarrow> [] | Some s \<Rightarrow> tokensFrom [] s)"

text \<open>The optional call \<^verbatim>\<open>v?.substring(0, 50)\<close>.\<close>

fun optSubstring50 :: "jsv \<Rightarrow> error + jsv" where
  "optSubstring50 Undefined = Inr Undefined"
| "optSubstring50 Null = Inr Undefined"
| "optSubstring50 (Str s) = Inr (Str (take 50 s))"
| "optSubstring50 v = Inl TypeError"

definition getComputedStyleInfo :: "node \<Rightarrow> jsv" where
  "getComputedStyleInfo element =
     Obj (map (\<lambda>k. (k, Str (computedStyle element k)))
       [''display'', ''position'', ''backgroundColor'', ''color'', ''fontSize'',
        ''fontFamily'', ''width'', ''height''])"

text \<open>
  Sequencing of steps that may raise: the first exception ends the handler, and a
  locator that has not returned within its fuel leaves the handler without a result.
\<close>

definition bindE :: "error + 'a \<Rightarrow> ('a \<Rightarrow> error + 'b) \<Rightarrow> error + 'b" where
  "bindE r f = (case r of Inl err \<Rightarrow> Inl err | Inr v \<Rightarrow> f v)"

definition bindO ::
  "(error + 'a) option \<Rightarrow> ('a \<Rightarrow> (error + 'b) option) \<Rightarrow> (error + 'b) option" where
  "bindO r f = (case r of None \<Rightarrow> None | Some (Inl err) \<Rightarrow> Some (Inl err) | Some (Inr v) \<Rightarrow> f v)"

text \<open>
  The record \<^verbatim>\<open>clickEvent\<close> that \<^verbatim>\<open>handleClickEvent\<close> builds, from the values
  computed while the object literal is evaluated.
\<close>

definition clickEvent ::
  "env \<Rightarrow> uiEvent \<Rightarrow> activityTracker \<Rightarrow> node \<Rightarrow> string \<Rightarrow> string \<Rightarrow> jsv \<Rightarrow> string \<Rightarrow> jsv \<Rightarrow> jsv"
where
  "clickEvent ev event st element eventObject tag shown cssSelector xpath =
     Obj [(''timestamp'', Str (isoString ev)),
          (''type_of_event'', Str ''CLICK''),
          (''event_object'', Str eventObject),
          (''element'', Obj
             [(''tagName'', Str tag),
              (''id'', orElse (id_prop element) (Str ''N/A'')),
              (''className'', orElse (className element) (Str ''N/A'')),
              (''text'', orElse shown (Str ''N/A'')),
              (''href'', orElse (href element) (Str ''N/A'')),
              (''type'', orElse (type_prop element) (Str ''N/A''))]),
          (''position'', Obj
             [(''x'', Num (clientX event)), (''y'', Num (clientY event)),
              (''pageX'', Num (pageX event)), (''pageY'', Num (pageY event))]),
          (''cssSelector'', Str cssSelector),
          (''xpath'', xpath),
          (''computedStyles'',
             if logDetailedInfo (config st) then getComputedStyleInfo element else Null)]"

definition handleClickEvent ::
  "nat \<Rightarrow> document \<Rightarrow> env \<Rightarrow> uiEvent \<Rightarrow> activityTracker \<Rightarrow> (error + activityTracker) option"
where
  "handleClickEvent fuel doc ev event st =
     (let element = nodes doc (target event) in
      bindO (Some (getEventObjectType element)) (\<lambda>eventObject.
      bindO (Some (toLowerCase (tagNameV element))) (\<lambda>tag.
      bindO (Some (optSubstring50 (innerText element))) (\<lambda>shown.
      bindO (getCssSelector fuel doc (target event)) (\<lambda>cssSelector.
      bindO (getXPath fuel doc (target event)) (\<lambda>xpath.
        Some (Inr (st\<lparr>events := events st @
          [clickEvent ev event st element eventObject tag shown cssSelector xpath]\<rparr>))))))))"

text \<open>The record \<^verbatim>\<open>changeEvent\<close> of \<^verbatim>\<open>handleChangeEvent\<close>.\<close>

definition changeEvent :: "env \<Rightarrow> node \<Rightarrow> string \<Rightarrow> string \<Rightarrow> jsv \<Rightarrow> jsv" where
  "changeEvent ev element eventObject tag val =
     Obj [(''timestamp'', Str (isoString ev)),
          (''type_of_event'', Str ''CHANGE''),
          (''event_object'', Str eventObject),
          (''element'', Obj
             [(''tagName'', Str tag),
              (''id'', orElse (id_prop element) (Str ''N/A'')),
              (''name'', orElse (name_prop element) (Str ''N/A'')),
              (''type'', orElse (type_prop element) (Str ''N/A'')),
              (''value'', orElse val (Str ''N/A''))])]"

definition handleChangeEvent ::
  "document \<Rightarrow> env \<Rightarrow> uiEvent \<Rightarrow> activityTracker \<Rightarrow> error + activityTracker"
where
  "handleChangeEvent doc ev event st =
     (let element = nodes doc (target event) in
      bindE (getEventObjectType element) (\<lambda>eventObject.
      bindE (toLowerCase (tagNameV element)) (\<lambda>tag.
      bindE (optSubstring50 (value_prop element)) (\<lambda>val.
        Inr (st\<lparr>events := events st @ [changeEvent ev element eventObject tag val]\<rparr>)))))"

text \<open>
  A property of an element that is absent (\<^verbatim>\<open>undefined\<close> or \<^verbatim>\<open>null\<close>) or present
  as the empty string.
\<close>

definition absentOrEmpty :: "jsv \<Rightarrow> bool" where
  "absentOrEmpty v = (v = Undefined \<or> v = Null \<or> v = Str [])"

text \<open>The three handlers that \<^verbatim>\<open>registerEventListeners\<close> wraps in a throttle.\<close>

definition handleScrollEvent :: "env \<Rightarrow> uiEvent \<Rightarrow> activityTracker \<Rightarrow> activityTracker" where
  "handleScrollEvent ev event st =
     st\<lparr>events := events st @
       [Obj [(''timestamp'', Str (isoString ev)),
             (''type_of_event'', Str ''SCROLL''),
             (''event_object'', Str ''PAGE''),
             (''position'', Obj
                [(''scrollY'', Num (scrollY ev)), (''scrollX'', Num (scrollX ev)),
                 (''scrollPercentage'', scrollPercentage ev)]),
             (''documentHeight'', Num (scrollHeight ev)),
             (''viewportHeight'', Num (innerHeight ev))]]\<rparr>"

definition handleMouseMoveEvent :: "env \<Rightarrow> uiEvent \<Rightarrow> activityTracker \<Rightarrow> activityTracker" where
  "handleMouseMoveEvent ev event st =
     st\<lparr>events := events st @
       [Obj [(''timestamp'', Str (isoString ev)),
             (''type_of_event'', Str ''MOUSE_MOVE''),
             (''event_object'', Str ''MOUSE''),
             (''position'', Obj
                [(''x'', Num (clientX event)), (''y'', Num (clientY event))])]]\<rparr>"

definition handleResizeEvent :: "env \<Rightarrow> uiEvent \<Rightarrow> activityTracker \<Rightarrow> activityTracker" where
  "handleResizeEvent ev event st =
     st\<lparr>events := events st @
       [Obj [(''timestamp'', Str (isoString ev)),
             (''type_of_event'', Str ''RESIZE''),
             (''event_object'', Str ''WINDOW''),
             (''viewport'', Obj
                [(''width'', Num (innerWidth ev)), (''height'', Num (innerHeight ev))])]]\<rparr>"

section \<open>The throttle\<close>

text \<open>
  \<^verbatim>\<open>throttle(func, delay)\<close> returns a closure over its own variable \<^verbatim>\<open>lastCall\<close>,
  which starts at 0. The closure is the record of the wrapped function, the delay and
  the current \<^verbatim>\<open>lastCall\<close>.
\<close>

record throttled =
  func :: "env \<Rightarrow> uiEvent \<Rightarrow> activityTracker \<Rightarrow> activityTracker"
  delay :: int
  lastCall :: int

definition throttle ::
  "(env \<Rightarrow> uiEvent \<Rightarrow> activityTracker \<Rightarrow> activityTracker) \<Rightarrow> int \<Rightarrow> throttled" where
  "throttle f d = \<lparr>func = f, delay = d, lastCall = 0\<rparr>"

text \<open>
  The page: the tracker and the throttled listeners that are registered, by event name.
\<close>

record page =
  tracker :: activityTracker
  listeners :: "string \<Rightarrow> throttled option"

text \<open>The throttled registrations of \<^verbatim>\<open>registerEventListeners\<close>.\<close>

definition registerEventListeners :: "activityTracker \<Rightarrow> page" where
  "registerEventListeners st =
     \<lparr>tracker = st,
      listeners = (\<lambda>name.
        if name = ''scroll'' \<and> trackScrolling (config st)
          then Some (throttle handleScrollEvent 500)
        else if name = ''mousemove'' \<and> trackMouseMovement (config st)
          then Some (throttle handleMouseMoveEvent 1000)
        else if name = ''resize'' then Some (throttle handleResizeEvent 500)
        else None)\<rparr>"

text \<open>
  The browser delivers an event to the throttled listener of that name: the body of the
  closure returned by \<^verbatim>\<open>throttle\<close>, run on the closure's own \<^verbatim>\<open>lastCall\<close>.
\<close>

definition dispatch :: "string \<Rightarrow> env \<Rightarrow> uiEvent \<Rightarrow> page \<Rightarrow> page" where
  "dispatch name ev event pg =
     (case listeners pg name of
        None \<Rightarrow> pg
      | Some th \<Rightarrow>
          if dateNow ev - lastCall th \<ge> delay th then
            pg\<lparr>listeners := (listeners pg)(name \<mapsto> th\<lparr>lastCall := dateNow ev\<rparr>),
               tracker := func th ev event (tracker pg)\<rparr>
          else pg)"

section \<open>Export as JSON\<close>

subsection \<open>Serialization: \<^verbatim>\<open>JSON.stringify(value, null, 2)\<close>\<close>

text \<open>
  \<^verbatim>\<open>QuoteJSONString\<close>: the quote and the backslash are escaped, the control characters
  below 32 take their short escapes or the form \<^verbatim>\<open>\u00XX\<close>, every other character is
  kept.
\<close>

definition hexDigits :: string where "hexDigits = ''0123456789abcdef''"

definition quoteChar :: "char \<Rightarrow> string" where
  "quoteChar c =
     (if c = CHR 0x22 then [CHR 0x5C, CHR 0x22]
      else if c = CHR 0x5C then [CHR 0x5C, CHR 0x5C]
      else if c = CHR 0x08 then [CHR 0x5C, CHR ''b'']
      else if c = CHR 0x09 then [CHR 0x5C, CHR ''t'']
      else if c = CHR 0x0A then [CHR 0x5C, CHR ''n'']
      else if c = CHR 0x0C then [CHR 0x5C, CHR ''f'']
      else if c = CHR 0x0D then [CHR 0x5C, CHR ''r'']
      else if (of_char c :: nat) < 32 then
        [CHR 0x5C, CHR ''u'', CHR ''0'', CHR ''0'',
         hexDigits ! ((of_char c :: nat) div 16), hexDigits ! ((of_char c :: nat) mod 16)]
      else [c])"

definition quoteJSONString :: "string \<Rightarrow> string" where
  "quoteJSONString s = CHR 0x22 # concat (map quoteChar s) @ [CHR 0x22]"

text \<open>The indentation at nesting depth \<open>k\<close>: the gap of two spaces, \<open>k\<close> times.\<close>

definition indentOf :: "nat \<Rightarrow> string" where
  "indentOf k = replicate (2 * k) (CHR '' '')"

text \<open>
  \<^verbatim>\<open>SerializeJSONProperty\<close> with a gap of two spaces, at nesting depth \<open>k\<close>. The result
  is absent for \<^verbatim>\<open>undefined\<close>; an array writes \<^verbatim>\<open>null\<close> for such an element, an
  object leaves such a property out. A non-empty array or object puts each entry on a
  line of its own.
\<close>

fun serializeJSONProperty :: "nat \<Rightarrow> jsv \<Rightarrow> string option" where
  "serializeJSONProperty k Undefined = None"
| "serializeJSONProperty k Null = Some ''null''"
| "serializeJSONProperty k (Bool b) = Some (if b then ''true'' else ''false'')"
| "serializeJSONProperty k (Num n) = Some (showInt n)"
| "serializeJSONProperty k (Str s) = Some (quoteJSONString s)"
| "serializeJSONProperty k (Arr xs) =
     Some (if xs = [] then ''[]''
           else CHR ''['' # CHR 0x0A # indentOf (Suc k)
             @ join (CHR '','' # CHR 0x0A # indentOf (Suc k))
                 (map (\<lambda>x. case serializeJSONProperty (Suc k) x of
                               None \<Rightarrow> ''null'' | Some s \<Rightarrow> s) xs)
             @ CHR 0x0A # indentOf k @ '']'')"
| "serializeJSONProperty k (Obj kvs) =
     (let partial = concat (map (\<lambda>kv. case serializeJSONProperty (Suc k) (snd kv) of
                                   None \<Rightarrow> []
                                 | Some s \<Rightarrow> [quoteJSONString (fst kv) @ '': '' @ s]) kvs)
      in Some (if partial = [] then ''{}''
               else CHR ''{'' # CHR 0x0A # indentOf (Suc k)
                 @ join (CHR '','' # CHR 0x0A # indentOf (Suc k)) partial
                 @ CHR 0x0A # indentOf k @ ''}''))"


subsection \<open>Parsing\<close>

text \<open>
  \<^verbatim>\<open>JSON.parse\<close> as a recursive-descent parser of the JSON grammar. Numbers are read
  as far as the model has them: an integer literal; a literal with a fraction or an
  exponent is outside the model and gives no result. An escape \<^verbatim>\<open>\uXXXX\<close> is read
  when its character fits the 8-bit characters of the model.
\<close>

definition isWs :: "char \<Rightarrow> bool" where
  "isWs c = (c = CHR '' '' \<or> c = CHR 0x0A \<or> c = CHR 0x0D \<or> c = CHR 0x09)"

definition skipWs :: "string \<Rightarrow> string" where
  "skipWs s = dropWhile isWs s"

definition hexVal :: "char \<Rightarrow> nat option" where
  "hexVal c = (case map_of (zip hexDigits [0..<16]) c of
                 Some v \<Rightarrow> Some v
               | None \<Rightarrow> map_of (zip ''ABCDEF'' [10..<16]) c)"

definition unescape :: "char \<Rightarrow> char option" where
  "unescape c = map_of [(CHR 0x22, CHR 0x22), (CHR 0x5C, CHR 0x5C), (CHR ''/'', CHR ''/''),
     (CHR ''b'', CHR 0x08), (CHR ''f'', CHR 0x0C), (CHR ''n'', CHR 0x0A),
     (CHR ''r'', CHR 0x0D), (CHR ''t'', CHR 0x09)] c"

definition hex4 :: "char \<Rightarrow> char \<Rightarrow> char \<Rightarrow> char \<Rightarrow> char option" where
  "hex4 a b c d =
     (case (hexVal a, hexVal b, hexVal c, hexVal d) of
        (Some x, Some y, Some z, Some w) \<Rightarrow>
          (let n = ((x * 16 + y) * 16 + z) * 16 + w in
           if n < 256 then Some (char_of n) else None)
      | _ \<Rightarrow> None)"

text \<open>The characters of a string literal after its opening quote, up to the closing one.\<close>

fun parseChars :: "string \<Rightarrow> string \<Rightarrow> (string \<times> string) option" where
  "parseChars [] acc = None"
| "parseChars (c # cs) acc =
     (if c = CHR 0x22 then Some (rev acc, cs)
      else if c = CHR 0x5C then
        (case cs of
           [] \<Rightarrow> None
         | e # cs1 \<Rightarrow>
             if e = CHR ''u'' then
               (case cs1 of
                  a # b # c2 # d # cs2 \<Rightarrow>
                    (case hex4 a b c2 d of
                       None \<Rightarrow> None
                     | Some ch \<Rightarrow> parseChars cs2 (ch # acc))
                | _ \<Rightarrow> None)
             else (case unescape e of
                     None \<Rightarrow> None
                   | Some ch \<Rightarrow> parseChars cs1 (ch # acc)))
      else if (of_char c :: nat) < 32 then None
      else parseChars cs (c # acc))"

definition isDigit :: "char \<Rightarrow> bool" where
  "isDigit c = (c \<in> set ''0123456789'')"

definition digitVal :: "char \<Rightarrow> nat" where
  "digitVal c = (case map_of (zip ''0123456789'' [0..<10]) c of Some d \<Rightarrow> d | None \<Rightarrow> 0)"

definition natOfDigits :: "string \<Rightarrow> nat" where
  "natOfDigits ds = foldl (\<lambda>a c. a * 10 + digitVal c) 0 ds"

definition parseNat :: "string \<Rightarrow> (nat \<times> string) option" where
  "parseNat s =
     (let ds = takeWhile isDigit s; rest = dropWhile isDigit s in
      if ds = [] then None
      else if length ds > 1 \<and> hd ds = CHR ''0'' then None
      else if rest \<noteq> [] \<and> hd rest \<in> set ''.eE'' then None
      else Some (natOfDigits ds, rest))"

definition parseNumber :: "string \<Rightarrow> (jsv \<times> string) option" where
  "parseNumber s =
     (case s of
        [] \<Rightarrow> None
      | c # cs \<Rightarrow>
          if c = CHR ''-'' then map_option (\<lambda>(n, rest). (Num (- int n), rest)) (parseNat cs)
          else map_option (\<lambda>(n, rest). (Num (int n), rest)) (parseNat s))"

definition stripPrefix :: "string \<Rightarrow> string \<Rightarrow> string option" where
  "stripPrefix p s = (if take (length p) s = p then Some (drop (length p) s) else None)"

text \<open>
  A value, the elements of an array after the first bracket, and the members of an object
  after the first brace. Each call takes one unit of fuel; the result is the value and
  the rest of the text.
\<close>

fun parseValue :: "nat \<Rightarrow> string \<Rightarrow> (jsv \<times> string) option"
  and parseElements :: "nat \<Rightarrow> string \<Rightarrow> jsv list \<Rightarrow> (jsv \<times> string) option"
  and parseMembers :: "nat \<Rightarrow> string \<Rightarrow> (string \<times> jsv) list \<Rightarrow> (jsv \<times> string) option"
where
  "parseValue 0 s = None"
| "parseValue (Suc n) s =
     (case skipWs s of
        [] \<Rightarrow> None
      | c # cs \<Rightarrow>
          if c = CHR ''{'' then
            (case skipWs cs of
               [] \<Rightarrow> None
             | d # ds \<Rightarrow> if d = CHR ''}'' then Some (Obj [], ds) else parseMembers n cs [])
          else if c = CHR ''['' then
            (case skipWs cs of
               [] \<Rightarrow> None
             | d # ds \<Rightarrow> if d = CHR '']'' then Some (Arr [], ds) else parseElements n cs [])
          else if c = CHR 0x22 then
            map_option (\<lambda>(str, rest). (Str str, rest)) (parseChars cs [])
          else if c = CHR ''t'' then map_option (Pair (Bool True)) (stripPrefix ''true'' (c # cs))
          else if c = CHR ''f'' then map_option (Pair (Bool False)) (stripPrefix ''false'' (c # cs))
          else if c = CHR ''n'' then map_option (Pair Null) (stripPrefix ''null'' (c # cs))
          else parseNumber (c # cs))"
| "parseElements 0 s acc = None"
| "parseElements (Suc n) s acc =
     (case parseValue n s of
        None \<Rightarrow> None
      | Some (v, rest) \<Rightarrow>
          (case skipWs rest of
             [] \<Rightarrow> None
           | c # cs \<Rightarrow>
               if c = CHR '','' then parseElements n cs (acc @ [v])
               else if c = CHR '']'' then Some (Arr (acc @ [v]), cs)
               else None))"
| "parseMembers 0 s acc = None"
| "parseMembers (Suc n) s acc =
     (case skipWs s of
        [] \<Rightarrow> None
      | q # s1 \<Rightarrow>
          if q \<noteq> CHR 0x22 then None
          else
            (case parseChars s1 [] of
               None \<Rightarrow> None
             | Some (key, s2) \<Rightarrow>
                 (case skipWs s2 of
                    [] \<Rightarrow> None
                  | colon # s3 \<Rightarrow>
                      if colon \<noteq> CHR '':'' then None
                      else
                        (case parseValue n s3 of
                           None \<Rightarrow> None
                         | Some (v, rest) \<Rightarrow>
                             (case skipWs rest of
                                [] \<Rightarrow> None
                              | c # cs \<Rightarrow>
                                  if c = CHR '','' then parseMembers n cs (acc @ [(key, v)])
                                  else if c = CHR ''}'' then Some (Obj (acc @ [(key, v)]), cs)
                                  else None)))))"

text \<open>
  \<^verbatim>\<open>JSON.parse(s)\<close>: one value, followed by white space only. \<open>None\<close> is a syntax
  error. The length of the text is fuel enough for any text that parses.
\<close>

definition JSON_parse :: "string \<Rightarrow> jsv option" where
  "JSON_parse s =
     (case parseValue (length s) s of
        None \<Rightarrow> None
      | Some (v, rest) \<Rightarrow> if skipWs rest = [] then Some v else None)"



subsection \<open>What parsing returns for a serialized value\<close>

text \<open>The text of a value as an element of an array or as the value of a property.\<close>

definition elemText :: "nat \<Rightarrow> jsv \<Rightarrow> string" where
  "elemText k v = (case serializeJSONProperty k v of None \<Rightarrow> ''null'' | Some s \<Rightarrow> s)"

definition memberText :: "nat \<Rightarrow> string \<times> jsv \<Rightarrow> string" where
  "memberText k kv = quoteJSONString (fst kv) @ '': '' @ elemText k (snd kv)"

definition separator :: "nat \<Rightarrow> string" where
  "separator k = CHR '','' # CHR 0x0A # indentOf k"

text \<open>
  The value that parsing the text of \<open>v\<close> gives back: \<open>v\<close> itself, except that an
  \<^verbatim>\<open>undefined\<close> element of an array is \<^verbatim>\<open>null\<close> and a property whose value is
  \<^verbatim>\<open>undefined\<close> is gone.
\<close>

fun parsedForm :: "jsv \<Rightarrow> jsv" where
  "parsedForm Undefined = Null"
| "parsedForm (Arr xs) = Arr (map parsedForm xs)"
| "parsedForm (Obj kvs) =
     Obj (map (\<lambda>kv. (fst kv, parsedForm (snd kv))) (filter (\<lambda>kv. snd kv \<noteq> Undefined) kvs))"
| "parsedForm v = v"

text \<open>
  What may follow a number in a serialized text: the end, a comma or a line break.
\<close>

definition okRest :: "string \<Rightarrow> bool" where
  "okRest rest = (rest = [] \<or> hd rest = CHR '','' \<or> hd rest = CHR 0x0A)"

text \<open>The first character of a serialized value is not white space and closes no array.\<close>

definition valueStart :: "char \<Rightarrow> bool" where
  "valueStart c = (\<not> isWs c \<and> c \<noteq> CHR '']'')"

subsection \<open>\<^verbatim>\<open>exportEventsAsJSON\<close>\<close>

text \<open>\<^verbatim>\<open>JSON.stringify(v, null, 2)\<close>: a string, or \<^verbatim>\<open>undefined\<close> for \<^verbatim>\<open>undefined\<close>.\<close>

definition JSON_stringify :: "jsv \<Rightarrow> jsv" where
  "JSON_stringify v =
     (case serializeJSONProperty 0 v of None \<Rightarrow> Undefined | Some s \<Rightarrow> Str s)"

text \<open>The session object as a value; an identifier not yet set is \<^verbatim>\<open>null\<close>.\<close>

definition optStr :: "string option \<Rightarrow> jsv" where
  "optStr v = (case v of None \<Rightarrow> Null | Some s \<Rightarrow> Str s)"

definition sessionObject :: "sessionInfo \<Rightarrow> jsv" where
  "sessionObject s =
     Obj [(''sessionId'', optStr (sessionId s)),
          (''startTime'', optStr (startTime s)),
          (''pageUrl'', Str (pageUrl s)),
          (''userAgent'', Str (userAgent s)),
          (''screenResolution'', Str (screenResolution s)),
          (''viewport'', Str (viewport s))]"

definition exportEventsAsJSON :: "env \<Rightarrow> activityTracker \<Rightarrow> jsv" where
  "exportEventsAsJSON ev st =
     JSON_stringify
       (Obj [(''session'', sessionObject (session st)),
             (''events'', Arr (events st)),
             (''exportTime'', Str (isoString ev))])"

section \<open>Example documents\<close>

definition blankNode :: node where
  "blankNode = \<lparr>nodeType = 1, tagName = None, id_prop = Str [], className = Str [],
     type_prop = Undefined, innerText = Str [], href = Undefined, name_prop = Undefined,
     value_prop = Undefined, computedStyle = (\<lambda>_. []), parentNode = None,
     childNodes = []\<rparr>"

definition elementNode :: "string \<Rightarrow> ref option \<Rightarrow> ref list \<Rightarrow> node" where
  "elementNode t p cs = blankNode\<lparr>tagName := Some t, parentNode := p, childNodes := cs\<rparr>"

definition textNode :: "ref option \<Rightarrow> node" where
  "textNode p = blankNode\<lparr>nodeType := 3, id_prop := Undefined, className := Undefined,
     innerText := Undefined, parentNode := p\<rparr>"

definition documentNode :: "ref list \<Rightarrow> node" where
  "documentNode cs = blankNode\<lparr>nodeType := 9, id_prop := Undefined, className := Undefined,
     innerText := Undefined, childNodes := cs\<rparr>"

text \<open>
  A page \<^verbatim>\<open><html><body><ul><li/> text <li/><li/></ul></body></html>\<close>: node 0 is the
  document, 1 the root element, 2 the body, 3 the list, 4, 6 and 7 its items, 5 a text
  node between the first two items.
\<close>

definition listDoc :: document where
  "listDoc = \<lparr>nodes = (\<lambda>_. blankNode)
       (0 := documentNode [1],
        1 := elementNode ''HTML'' (Some 0) [2],
        2 := elementNode ''BODY'' (Some 1) [3],
        3 := elementNode ''UL'' (Some 2) [4, 5, 6, 7],
        4 := elementNode ''LI'' (Some 3) [],
        5 := textNode (Some 3),
        6 := elementNode ''LI'' (Some 3) [],
        7 := elementNode ''LI'' (Some 3) []),
     body = Some 2\<rparr>"

text \<open>
  A page whose root element has an id:
  \<^verbatim>\<open><html id="r"><body><div/></body></html>\<close>, the division being node 3.
\<close>

definition rootIdDoc :: document where
  "rootIdDoc = \<lparr>nodes = (\<lambda>_. blankNode)
       (0 := documentNode [1],
        1 := (elementNode ''HTML'' (Some 0) [2])\<lparr>id_prop := Str ''r''\<rparr>,
        2 := elementNode ''BODY'' (Some 1) [3],
        3 := elementNode ''DIV'' (Some 2) []),
     body = Some 2\<rparr>"

text \<open>A detached \<^verbatim>\<open><div><span/></div>\<close>: node 0 is the division, without a parent.\<close>

definition detachedDoc :: document where
  "detachedDoc = \<lparr>nodes = (\<lambda>_. blankNode)
       (0 := elementNode ''DIV'' None [1],
        1 := elementNode ''SPAN'' (Some 0) []),
     body = None\<rparr>"

text \<open>A page with an element that has classes and an input with an empty value.\<close>

definition formDoc :: document where
  "formDoc = \<lparr>nodes = (\<lambda>_. blankNode)
       (0 := documentNode [1],
        1 := elementNode ''HTML'' (Some 0) [2],
        2 := elementNode ''BODY'' (Some 1) [3, 4],
        3 := (elementNode ''DIV'' (Some 2) [])\<lparr>className := Str ''card  big''\<rparr>,
        4 := (elementNode ''INPUT'' (Some 2) [])\<lparr>type_prop := Str ''text'',
               name_prop := Str ''q'', value_prop := Str [], innerText := Str []\<rparr>),
     body = Some 2\<rparr>"

text \<open>
  A page with an SVG element, node 3, whose \<^verbatim>\<open>className\<close> is not a string but an object
  with the fields \<^verbatim>\<open>baseVal\<close> and \<^verbatim>\<open>animVal\<close>, and with a division, node 4, whose
  two classes are separated by a tab.
\<close>

definition svgDoc :: document where
  "svgDoc = \<lparr>nodes = (\<lambda>_. blankNode)
       (0 := documentNode [1],
        1 := elementNode ''HTML'' (Some 0) [2],
        2 := elementNode ''BODY'' (Some 1) [3, 4],
        3 := (elementNode ''svg'' (Some 2) [])\<lparr>className :=
               Obj [(''baseVal'', Str ''icon''), (''animVal'', Str ''icon'')],
               innerText := Undefined\<rparr>,
        4 := (elementNode ''DIV'' (Some 2) [])\<lparr>className :=
               Str (''card'' @ [CHR 0x09] @ ''big'')\<rparr>),
     body = Some 2\<rparr>"

definition trackerExample :: activityTracker where
  "trackerExample = \<lparr>events = [],
     session = \<lparr>sessionId = Some ''session_1700000000000_k3j9x0a1b'',
       startTime = Some ''2023-11-14T22:13:20.000Z'', pageUrl = ''http://localhost/'',
       userAgent = ''Mozilla/5.0'', screenResolution = ''1920x1080'',
       viewport = ''1280x720''\<rparr>,
     config = \<lparr>logToConsole = True, logDetailedInfo = True, trackMouseMovement = False,
       trackScrolling = True, trackFormInputs = True, groupSimilarEvents = False\<rparr>\<rparr>"

definition envAt :: "int \<Rightarrow> env" where
  "envAt t = \<lparr>dateNow = t, isoString = ''2023-11-14T22:13:20.000Z'', innerWidth = 1280,
     innerHeight = 720, scrollX = 0, scrollY = 300, scrollHeight = 2000,
     scrollPercentage = Num 23\<rparr>"

definition eventAt :: "ref \<Rightarrow> uiEvent" where
  "eventAt r = \<lparr>target = r, clientX = 10, clientY = 20, pageX = 10, pageY = 320\<rparr>"

section \<open>Properties\<close>

subsection \<open>Helper facts\<close>

lemmas doc_simps = listDoc_def rootIdDoc_def detachedDoc_def formDoc_def svgDoc_def
  elementNode_def textNode_def documentNode_def blankNode_def
  parentElement_def previousElementSiblings_def

text \<open>The lower-cased tag names and subtypes of the example documents.\<close>

lemma lowerStr_examples:
  "lowerStr ''HTML'' = ''html''" "lowerStr ''BODY'' = ''body''" "lowerStr ''UL'' = ''ul''"
  "lowerStr ''LI'' = ''li''" "lowerStr ''DIV'' = ''div''" "lowerStr ''SPAN'' = ''span''"
  "lowerStr ''INPUT'' = ''input''" "lowerStr ''svg'' = ''svg''"
  "lowerStr ''Checkbox'' = ''checkbox''" "lowerStr ''text'' = ''text''"
  by code_simp+

text \<open>A capital letter outside ASCII is lowered as well; the multiplication sign is kept.\<close>

lemma lowerStr_latin1:
  "lowerStr [CHR ''X'', CHR ''-'', CHR 0xC9] = [CHR ''x'', CHR ''-'', CHR 0xE9]"
  "lowerStr [CHR 0xD7, CHR 0xDF, CHR 0xFF] = [CHR 0xD7, CHR 0xDF, CHR 0xFF]"
  by code_simp+

lemmas lower_simps = lowerStr_examples

lemma inputTypeSwitch_table:
  "inputTypeSwitch (Str s)
     = (case map_of subtypeTable s of Some l \<Rightarrow> l | None \<Rightarrow> ''INPUT_FIELD'')"
  by (simp add: inputTypeSwitch_def subtypeTable_def)

lemma inputTypeSwitch_absent: "inputTypeSwitch Undefined = ''INPUT_FIELD''"
  by (simp add: inputTypeSwitch_def)

lemma tagSwitch_table:
  "tagSwitch t = (case map_of tagTable t of Some l \<Rightarrow> l | None \<Rightarrow> ''ELEMENT'')"
  by (simp add: tagSwitch_def tagTable_def)

lemma inputTypeSwitch_label: "inputTypeSwitch v \<in> set categoryLabels"
  by (simp add: inputTypeSwitch_def categoryLabels_def subtypeTable_def)

lemma tagSwitch_label: "tagSwitch t \<in> set categoryLabels"
  by (simp add: tagSwitch_def categoryLabels_def subtypeTable_def tagTable_def)

lemma dropDown_label: "''DROP_DOWN'' \<in> set categoryLabels"
  by (simp add: categoryLabels_def)

lemma countNth_eq:
  "countNth doc tag xs n = n + length (filter (\<lambda>s. tagName (nodes doc s) = tag) xs)"
  by (induction xs arbitrary: n) auto

text \<open>
  The walk prepends one segment per level, so the finished path is the segments of the
  levels above followed by what was already collected.
\<close>

lemma cssWalk_segments:
  "cssSegments doc e segs \<Longrightarrow> length segs < fuel \<Longrightarrow>
   cssWalk fuel doc e path = Some (Inr (join '' > '' (segs @ path)))"
proof (induction arbitrary: fuel path rule: cssSegments.induct)
  case (Root e)
  then obtain f where "fuel = Suc f" by (cases fuel) auto
  with Root show ?case by simp
next
  case (Anchor e p t)
  then obtain f where "fuel = Suc f" by (cases fuel) auto
  with Anchor show ?case by (simp add: tagNameV_def)
next
  case (Level e p t segs)
  then obtain f where f: "fuel = Suc f" "length segs < f" by (cases fuel) auto
  have "cssWalk fuel doc e path = cssWalk f doc p (segment doc e t # path)"
    using Level.hyps(1,2,3) f(1)
    by (simp add: tagNameV_def countNth_eq segment_def nthOfType_def Let_def)
  also have "\<dots> = Some (Inr (join '' > '' (segs @ segment doc e t # path)))"
    using Level.IH [OF f(2)] .
  finally show ?case by simp
qed

text \<open>Every element of a tree has its segments.\<close>

lemma cssSegments_total: "elementPath doc e \<Longrightarrow> \<exists>segs. cssSegments doc e segs"
proof (induction rule: elementPath.induct)
  case (Start e)
  then show ?case by (auto intro: cssSegments.Root)
next
  case (Up e p t)
  then obtain segs where "cssSegments doc p segs" by blast
  with Up.hyps show ?case
    by (cases "truthy (id_prop (nodes doc e))")
       (blast intro: cssSegments.Anchor cssSegments.Level)+
qed

text \<open>
  On an element whose \<^verbatim>\<open>className\<close> is an object and that has no id, the class branch
  calls \<^verbatim>\<open>split\<close> on a value that has no such method.
\<close>

lemma getCssSelector_object_className:
  "\<not> truthy (id_prop (nodes doc e)) \<Longrightarrow> className (nodes doc e) = Obj kvs
   \<Longrightarrow> getCssSelector fuel doc e = Some (Inl TypeError)"
  by (simp add: getCssSelector_def Let_def)

lemma listDoc_segments: "cssSegments listDoc 7 [''body'', ''ul'', ''li:nth-of-type(3)'']"
proof -
  have 1: "cssSegments listDoc 1 []"
    by (rule cssSegments.Root) (simp add: doc_simps)
  have 2: "cssSegments listDoc 2 ([] @ [segment listDoc 2 ''BODY''])"
    by (rule cssSegments.Level [OF _ _ _ 1]) (simp_all add: doc_simps)
  have 3: "cssSegments listDoc 3
             (([] @ [segment listDoc 2 ''BODY'']) @ [segment listDoc 3 ''UL''])"
    by (rule cssSegments.Level [OF _ _ _ 2]) (simp_all add: doc_simps)
  have 4: "cssSegments listDoc 7
             ((([] @ [segment listDoc 2 ''BODY'']) @ [segment listDoc 3 ''UL''])
              @ [segment listDoc 7 ''LI''])"
    by (rule cssSegments.Level [OF _ _ _ 3]) (simp_all add: doc_simps)
  have "segment listDoc 2 ''BODY'' = ''body''" "segment listDoc 3 ''UL'' = ''ul''"
     "segment listDoc 7 ''LI'' = ''li:nth-of-type(3)''"
    by (simp_all add: segment_def nthOfType_def doc_simps lower_simps showNat.simps)
  with 4 show ?thesis by simp
qed

lemma xpathIndex_eq:
  "e \<in> set xs \<Longrightarrow>
   xpathIndex doc e xs ix
     = Some (ix + length (filter (\<lambda>s. nodeType (nodes doc s) = 1
                                     \<and> tagName (nodes doc s) = tagName (nodes doc e))
                           (takeWhile (\<lambda>s. s \<noteq> e) xs)))"
  by (induction xs arbitrary: ix) auto

text \<open>
  The class branch on a \<^verbatim>\<open>className\<close> that is a non-empty string: the lower-cased tag, a
  dot, and the non-empty pieces of the string between single spaces, joined by dots. No
  fuel is used, so no ancestor is visited.
\<close>

lemma getCssSelector_class_branch:
  assumes "\<not> truthy (id_prop (nodes doc e))" and "className (nodes doc e) = Str c"
    and "c \<noteq> []" and "tagName (nodes doc e) = Some t"
  shows "getCssSelector fuel doc e
           = Some (Inr (lowerStr t @ ''.''
               @ join ''.'' (filter (\<lambda>x. x \<noteq> []) (splitStr (CHR '' '') c))))"
  using assms by (simp add: getCssSelector_def Let_def tagNameV_def)

lemma formDoc_class_selector: "getCssSelector 0 formDoc 3 = Some (Inr ''div.card.big'')"
  using getCssSelector_class_branch [of formDoc 3 "''card  big''" "''DIV''" 0]
  by (simp add: doc_simps splitStr_def lower_simps)

text \<open>
  Classes separated by a tab: the class list has two entries, the selector keeps the tab
  inside one piece.
\<close>

lemma getCssSelector_tab_separated:
  "classList (nodes svgDoc 4) = [''card'', ''big'']
   \<and> getCssSelector 0 svgDoc 4 = Some (Inr (''div.card'' @ [CHR 0x09] @ ''big''))"
  by (simp add: classList_def classAttribute_def isAsciiWhitespace_def getCssSelector_def
      doc_simps tagNameV_def splitStr_def lower_simps)

text \<open>
  One step of \<^verbatim>\<open>getXPath\<close> on an element without an id that is not the body and stands
  in the child list of its parent: the text of whatever the call on the parent returned,
  followed by \<open>/tag[k]\<close>.
\<close>

lemma getXPath_parent_step:
  assumes "\<not> truthy (id_prop (nodes doc e))" and "body doc \<noteq> Some e"
    and "parentNode (nodes doc e) = Some p" and "e \<in> set (childNodes (nodes doc p))"
    and "tagName (nodes doc e) = Some t" and "getXPath fuel doc p = Some (Inr parentPath)"
  shows "getXPath (Suc fuel) doc e
           = Some (Inr (Str (toString parentPath @ ''/'' @ lowerStr t
                  @ ''['' @ showNat (xpathPosition doc e p) @ '']'')))"
  using assms(1,2,3,5,6) xpathIndex_eq [OF assms(4), of doc 0]
  by (simp add: Let_def xpathPosition_def tagNameV_def)

lemma getXPath_body: 
  "\<not> truthy (id_prop (nodes doc e)) \<Longrightarrow> body doc = Some e
   \<Longrightarrow> getXPath (Suc fuel) doc e = Some (Inr (Str ''/html/body''))"
  by (simp add: Let_def)

lemma listDoc_xpath:
  "getXPath 3 listDoc 7 = Some (Inr (Str ''/html/body/ul[1]/li[3]''))"
proof -
  have b: "getXPath (Suc 0) listDoc 2 = Some (Inr (Str ''/html/body''))"
    by (rule getXPath_body) (simp_all add: doc_simps)
  have u: "getXPath (Suc (Suc 0)) listDoc 3 = Some (Inr (Str ''/html/body/ul[1]''))"
    using getXPath_parent_step [of listDoc 3 2 "''UL''" "Suc 0" "Str ''/html/body''"] b
    by (simp add: doc_simps xpathPosition_def lower_simps showNat.simps)
  have "getXPath (Suc (Suc (Suc 0))) listDoc 7
          = Some (Inr (Str ''/html/body/ul[1]/li[3]''))"
    using getXPath_parent_step
            [of listDoc 7 3 "''LI''" "Suc (Suc 0)" "Str ''/html/body/ul[1]''"] u
    by (simp add: doc_simps xpathPosition_def lower_simps showNat.simps)
  then show ?thesis by (simp add: eval_nat_numeral)
qed

text \<open>
  Below a node that has no path the concatenation renders the missing parent path as the
  word \<open>undefined\<close>.
\<close>

lemma getXPath_below_parentless:
  "getXPath 2 detachedDoc 1 = Some (Inr (Str ''undefined/span[1]''))"
  by (simp add: doc_simps eval_nat_numeral tagNameV_def lower_simps showNat.simps)

lemma cssWalk_terminates:
  "hasDepth doc e k \<Longrightarrow> k < fuel \<Longrightarrow> \<exists>r. cssWalk fuel doc e path = Some r"
proof (induction arbitrary: fuel path rule: hasDepth.induct)
  case (Top n)
  then obtain f where "fuel = Suc f" by (cases fuel) auto
  with Top show ?case by (simp add: parentElement_def)
next
  case (Below n p k)
  then obtain f where f: "fuel = Suc f" "k < f" by (cases fuel) auto
  show ?case
    using Below.hyps(1) Below.IH [OF f(2)] f(1)
    by (auto simp: parentElement_def Let_def split: sum.splits)
qed

lemma getXPath_terminates:
  "hasDepth doc e k \<Longrightarrow> k < fuel \<Longrightarrow> \<exists>r. getXPath fuel doc e = Some r"
proof (induction arbitrary: fuel rule: hasDepth.induct)
  case (Top n)
  then obtain f where "fuel = Suc f" by (cases fuel) auto
  with Top show ?case by (simp add: Let_def)
next
  case (Below n p k)
  then obtain f where f: "fuel = Suc f" "k < f" by (cases fuel) auto
  from Below.IH [OF f(2)] obtain r where "getXPath f doc p = Some r" by blast
  with Below.hyps(1) f(1) show ?case
    by (auto simp: Let_def split: sum.splits option.splits)
qed

inductive_cases hasDepth_cases: "hasDepth doc n k"

lemma listDoc_depth: "hasDepth listDoc 7 4"
proof -
  have "hasDepth listDoc 0 0" by (rule hasDepth.Top) (simp add: doc_simps)
  then have "hasDepth listDoc 1 (Suc 0)" by (rule hasDepth.Below [rotated]) (simp add: doc_simps)
  then have "hasDepth listDoc 2 (Suc (Suc 0))"
    by (rule hasDepth.Below [rotated]) (simp add: doc_simps)
  then have "hasDepth listDoc 3 (Suc (Suc (Suc 0)))"
    by (rule hasDepth.Below [rotated]) (simp add: doc_simps)
  then have "hasDepth listDoc 7 (Suc (Suc (Suc (Suc 0))))"
    by (rule hasDepth.Below [rotated]) (simp add: doc_simps)
  then show ?thesis by (simp add: eval_nat_numeral)
qed

lemma handler_length:
  "f = handleScrollEvent \<or> f = handleMouseMoveEvent \<or> f = handleResizeEvent \<Longrightarrow>
   length (events (f ev event st)) = Suc (length (events st))"
  by (auto simp: handleScrollEvent_def handleMouseMoveEvent_def handleResizeEvent_def)

lemma dispatch_accept:
  "listeners pg name = Some th \<Longrightarrow> delay th \<le> dateNow ev - lastCall th \<Longrightarrow>
   dispatch name ev event pg
     = pg\<lparr>listeners := (listeners pg)(name \<mapsto> th\<lparr>lastCall := dateNow ev\<rparr>),
          tracker := func th ev event (tracker pg)\<rparr>"
  by (simp add: dispatch_def)

lemma dispatch_drop:
  "listeners pg name = Some th \<Longrightarrow> dateNow ev - lastCall th < delay th \<Longrightarrow>
   dispatch name ev event pg = pg"
  by (simp add: dispatch_def)

lemma orElse_sentinel: "absentOrEmpty v \<Longrightarrow> orElse v (Str ''N/A'') = Str ''N/A''"
  by (auto simp: absentOrEmpty_def orElse_def)

lemma substring_sentinel:
  "absentOrEmpty v \<Longrightarrow> optSubstring50 v = Inr t \<Longrightarrow> orElse t (Str ''N/A'') = Str ''N/A''"
  by (auto simp: absentOrEmpty_def orElse_def)

lemma handleClickEvent_record:
  assumes "handleClickEvent fuel doc ev event st = Some (Inr st')"
  obtains eventObject tag shown cssSelector xpath where
    "optSubstring50 (innerText (nodes doc (target event))) = Inr shown"
    "events st' = events st @
       [clickEvent ev event st (nodes doc (target event)) eventObject tag shown
          cssSelector xpath]"
  using assms
  by (auto simp: handleClickEvent_def bindO_def Let_def split: option.splits sum.splits)

lemma handleChangeEvent_record:
  assumes "handleChangeEvent doc ev event st = Inr st'"
  obtains eventObject tag val where
    "optSubstring50 (value_prop (nodes doc (target event))) = Inr val"
    "events st' = events st @ [changeEvent ev (nodes doc (target event)) eventObject tag val]"
  using assms
  by (auto simp: handleChangeEvent_def bindE_def Let_def split: sum.splits)

lemma formDoc_click:
  "handleClickEvent 4 formDoc (envAt 1700000000000) (eventAt 4) trackerExample
     = Some (Inr (trackerExample\<lparr>events :=
         [clickEvent (envAt 1700000000000) (eventAt 4) trackerExample (nodes formDoc 4)
            ''TEXT_FIELD'' ''input'' (Str []) ''body > input''
            (Str ''/html/body/input[1]'')]\<rparr>))"
  by (simp add: handleClickEvent_def bindO_def getEventObjectType_def tagNameV_def doc_simps
      lower_simps inputTypeSwitch_def getCssSelector_def eval_nat_numeral
      trackerExample_def eventAt_def showNat.simps)

lemma formDoc_change:
  "handleChangeEvent formDoc (envAt 1700000000000) (eventAt 4) trackerExample
     = Inr (trackerExample\<lparr>events :=
         [changeEvent (envAt 1700000000000) (nodes formDoc 4) ''TEXT_FIELD'' ''input''
            (Str [])]\<rparr>)"
  by (simp add: handleChangeEvent_def bindE_def getEventObjectType_def tagNameV_def doc_simps
      lower_simps inputTypeSwitch_def trackerExample_def eventAt_def)

subsection \<open>Parsing a serialized value\<close>

lemma hexDigits_distinct: "distinct hexDigits \<and> length hexDigits = 16"
  by (simp add: hexDigits_def)

lemma hexVal_hexDigits: "k < 16 \<Longrightarrow> hexVal (hexDigits ! k) = Some k"
  using hexDigits_distinct by (simp add: hexVal_def map_of_zip_nth)

lemma hexVal_zero: "hexVal (CHR ''0'') = Some 0"
  using hexVal_hexDigits [of 0] by (simp add: hexDigits_def)

lemma hex4_control:
  assumes "(of_char c :: nat) < 32"
  shows "hex4 (CHR ''0'') (CHR ''0'') (hexDigits ! ((of_char c :: nat) div 16))
           (hexDigits ! ((of_char c :: nat) mod 16)) = Some c"
proof -
  let ?n = "of_char c :: nat"
  have d: "?n div 16 < 16" using assms by simp
  have m: "?n mod 16 < 16" by simp
  have "((0 * 16 + 0) * 16 + ?n div 16) * 16 + ?n mod 16 = ?n" by simp
  then show ?thesis
    using assms by (simp add: hex4_def hexVal_zero hexVal_hexDigits [OF d] hexVal_hexDigits [OF m])
qed

lemma parseChars_quoteChar:
  "parseChars (quoteChar c @ rest) acc = parseChars rest (c # acc)"
  by (simp add: quoteChar_def unescape_def hex4_control)

lemma parseChars_quoted:
  "parseChars (concat (map quoteChar s) @ CHR 0x22 # rest) acc = Some (rev acc @ s, rest)"
  by (induction s arbitrary: acc) (simp_all add: parseChars_quoteChar)


lemma digits_distinct: "distinct ''0123456789'' \<and> length ''0123456789'' = 10"
  by simp

lemma digit_nth: "k < 10 \<Longrightarrow> isDigit (''0123456789'' ! k) \<and> digitVal (''0123456789'' ! k) = k"
proof
  assume k: "k < 10"
  show "isDigit (''0123456789'' ! k)"
    unfolding isDigit_def using k by (intro nth_mem) simp
  show "digitVal (''0123456789'' ! k) = k"
    using digits_distinct k by (simp add: digitVal_def map_of_zip_nth del: distinct.simps)
qed

lemma digit_nth_zero: "k < 10 \<Longrightarrow> (''0123456789'' ! k = CHR ''0'') = (k = 0)"
  using digits_distinct nth_eq_iff_index_eq [of "''0123456789''" k 0]
  by (simp del: distinct.simps)

lemma natOfDigits_snoc: "natOfDigits (ds @ [d]) = natOfDigits ds * 10 + digitVal d"
  by (simp add: natOfDigits_def)

lemma showNat_props:
  "showNat n \<noteq> [] \<and> (\<forall>c \<in> set (showNat n). isDigit c) \<and> natOfDigits (showNat n) = n
   \<and> (hd (showNat n) = CHR ''0'' \<longrightarrow> n = 0) \<and> (n < 10 \<longrightarrow> length (showNat n) = 1)"
proof (induction n rule: showNat.induct)
  case (1 n)
  show ?case
  proof (cases "n < 10")
    case True
    then show ?thesis
      by (subst (1 2 3 4 5) showNat.simps) (simp add: digit_nth digit_nth_zero natOfDigits_def)
  next
    case False
    with 1 have IH: "showNat (n div 10) \<noteq> []" "\<forall>c \<in> set (showNat (n div 10)). isDigit c"
      "natOfDigits (showNat (n div 10)) = n div 10"
      "hd (showNat (n div 10)) = CHR ''0'' \<longrightarrow> n div 10 = 0" by auto
    have m: "n mod 10 < 10" by simp
    from False have nz: "n div 10 \<noteq> 0" by simp
    show ?thesis
      using False IH nz
      by (subst (1 2 3 4 5) showNat.simps) (simp add: digit_nth [OF m] natOfDigits_snoc)
  qed
qed

lemma okRest_digits:
  "okRest rest \<Longrightarrow> takeWhile isDigit rest = [] \<and> dropWhile isDigit rest = rest
     \<and> \<not> (rest \<noteq> [] \<and> hd rest \<in> set ''.eE'')"
  by (cases rest) (auto simp: okRest_def isDigit_def)

lemma parseNat_showNat:
  assumes "okRest rest"
  shows "parseNat (showNat n @ rest) = Some (n, rest)"
proof -
  from showNat_props [of n] have ne: "showNat n \<noteq> []" and dg: "\<forall>c \<in> set (showNat n). isDigit c"
    and v: "natOfDigits (showNat n) = n" and z: "hd (showNat n) = CHR ''0'' \<longrightarrow> n = 0"
    and l: "n < 10 \<longrightarrow> length (showNat n) = 1" by auto
  from okRest_digits [OF assms] have t: "takeWhile isDigit (showNat n @ rest) = showNat n"
    and d: "dropWhile isDigit (showNat n @ rest) = rest"
    and e: "\<not> (rest \<noteq> [] \<and> hd rest \<in> set ''.eE'')"
    using dg by (simp_all add: takeWhile_append dropWhile_append)
  have lead: "\<not> (length (showNat n) > 1 \<and> hd (showNat n) = CHR ''0'')"
    using z l by auto
  show ?thesis
    unfolding parseNat_def t d Let_def using ne lead e v by simp
qed

lemma showNat_hd_digit: "\<exists>c cs. showNat n = c # cs \<and> isDigit c"
  using showNat_props [of n] by (cases "showNat n") auto

lemma parseNumber_showInt:
  assumes "okRest rest"
  shows "parseNumber (showInt i @ rest) = Some (Num i, rest)"
proof (cases "i < 0")
  case True
  then show ?thesis
    by (simp add: parseNumber_def showInt_def parseNat_showNat [OF assms])
next
  case False
  obtain c cs where c: "showNat (nat i) = c # cs" "isDigit c"
    using showNat_hd_digit by blast
  then have "c \<noteq> CHR ''-''" by (auto simp: isDigit_def)
  with False c show ?thesis
    using parseNat_showNat [OF assms, of "nat i"]
    by (simp add: parseNumber_def showInt_def)
qed

lemma serialize_None: "(serializeJSONProperty k v = None) = (v = Undefined)"
  by (cases v) (simp_all add: Let_def)

lemma partial_members:
  "concat (map (\<lambda>kv. case serializeJSONProperty k (snd kv) of
                        None \<Rightarrow> []
                      | Some s \<Rightarrow> [quoteJSONString (fst kv) @ '': '' @ s]) kvs)
     = map (memberText k) (filter (\<lambda>kv. snd kv \<noteq> Undefined) kvs)"
  by (induction kvs) (auto simp: memberText_def elemText_def serialize_None split: option.splits)

lemma elemText_Arr:
  "elemText k (Arr xs) =
     (if xs = [] then ''[]''
      else CHR ''['' # CHR 0x0A # indentOf (Suc k)
             @ join (separator (Suc k)) (map (elemText (Suc k)) xs)
             @ CHR 0x0A # indentOf k @ '']'')"
  by (simp add: elemText_def separator_def cong: map_cong)

lemma elemText_Obj:
  "elemText k (Obj kvs) =
     (if filter (\<lambda>kv. snd kv \<noteq> Undefined) kvs = [] then ''{}''
      else CHR ''{'' # CHR 0x0A # indentOf (Suc k)
             @ join (separator (Suc k))
                 (map (memberText (Suc k)) (filter (\<lambda>kv. snd kv \<noteq> Undefined) kvs))
             @ CHR 0x0A # indentOf k @ ''}'')"
  by (simp add: elemText_def separator_def partial_members Let_def)

lemma isWs_indent: "\<forall>c \<in> set (indentOf k). isWs c"
  by (simp add: indentOf_def isWs_def)

lemma skipWs_append:
  "\<forall>c \<in> set ws. isWs c \<Longrightarrow> \<not> isWs c \<Longrightarrow> skipWs (ws @ c # s) = c # s"
  by (simp add: skipWs_def dropWhile_append)

lemma skipWs_nonws: "\<not> isWs c \<Longrightarrow> skipWs (c # s) = c # s"
  by (simp add: skipWs_def)

lemma showInt_start:
  "\<exists>c cs. showInt i = c # cs \<and> (isDigit c \<or> c = CHR ''-'')"
  using showNat_hd_digit [of "nat i"] by (auto simp: showInt_def)

lemma numStart:
  "isDigit c \<or> c = CHR ''-'' \<Longrightarrow>
   c \<noteq> CHR ''{'' \<and> c \<noteq> CHR ''['' \<and> c \<noteq> CHR 0x22 \<and> c \<noteq> CHR ''t'' \<and> c \<noteq> CHR ''f''
   \<and> c \<noteq> CHR ''n'' \<and> c \<noteq> CHR '']'' \<and> \<not> isWs c"
  by (auto simp: isDigit_def isWs_def)

lemma elemText_start: "\<exists>c cs. elemText k v = c # cs \<and> valueStart c"
proof (cases v)
  case (Num i)
  then show ?thesis
    using showInt_start [of i] numStart by (auto simp: elemText_def valueStart_def)
next
  case (Arr xs)
  then show ?thesis by (simp add: elemText_Arr valueStart_def isWs_def)
next
  case (Obj kvs)
  then show ?thesis by (simp add: elemText_Obj valueStart_def isWs_def)
qed (simp_all add: elemText_def valueStart_def isWs_def quoteJSONString_def)

lemma join_map_start:
  "xs \<noteq> [] \<Longrightarrow> \<exists>r. join sep (map f xs) = f (hd xs) @ r"
  by (cases xs, simp, rename_tac a l, case_tac l, auto)

lemma okRest_simps: "okRest (CHR '','' # s)" "okRest (CHR 0x0A # s)" "okRest []"
  by (simp_all add: okRest_def)

lemma isWs_simps: "isWs (CHR 0x0A)" "isWs (CHR '' '')" "\<not> isWs (CHR '','')"
  "\<not> isWs (CHR '']'')" "\<not> isWs (CHR ''}'')" "\<not> isWs (CHR '':'')" "\<not> isWs (CHR 0x22)"
  "\<not> isWs (CHR ''['')" "\<not> isWs (CHR ''{'')"
  by (simp_all add: isWs_def)

lemma parseElements_join:
  assumes IH: "\<And>x n k rest ws. x \<in> set xs \<Longrightarrow> okRest rest \<Longrightarrow> \<forall>c\<in>set ws. isWs c
            \<Longrightarrow> length (elemText k x) \<le> n
            \<Longrightarrow> parseValue n (ws @ elemText k x @ rest) = Some (parsedForm x, rest)"
  shows "xs \<noteq> [] \<Longrightarrow> \<forall>c\<in>set ws. isWs c
    \<Longrightarrow> length (join (separator j) (map (elemText j) xs)) < n
    \<Longrightarrow> parseElements n (ws @ join (separator j) (map (elemText j) xs)
                              @ CHR 0x0A # indentOf k @ CHR '']'' # rest) acc
          = Some (Arr (acc @ map parsedForm xs), rest)"
  using IH
proof (induction xs arbitrary: n ws acc)
  case Nil
  then show ?case by simp
next
  case (Cons x xs)
  from Cons.prems(3) obtain m where n: "n = Suc m" by (cases n) auto
  have pv: "parseValue m (ws @ elemText j x @ r) = Some (parsedForm x, r)"
    if "okRest r" "length (elemText j x) \<le> m" for r
    using Cons.prems(4) [of x r ws j m] that Cons.prems(2) by simp
  show ?case
  proof (cases xs)
    case Nil
    let ?r = "CHR 0x0A # indentOf k @ CHR '']'' # rest"
    have len: "length (elemText j x) \<le> m" using Cons.prems(3) n Nil by simp
    have sk: "skipWs ?r = CHR '']'' # rest"
      using skipWs_append [of "CHR 0x0A # indentOf k" "CHR '']''" rest] isWs_indent
      by (simp add: isWs_simps)
    show ?thesis
      using pv [of ?r, OF okRest_simps(2) len] sk
      by (simp add: n Nil)
  next
    case (Cons y ys)
    let ?tail = "join (separator j) (map (elemText j) (y # ys))"
    let ?end = "CHR 0x0A # indentOf k @ CHR '']'' # rest"
    let ?r = "CHR '','' # (CHR 0x0A # indentOf j) @ ?tail @ ?end"
    have jn: "join (separator j) (map (elemText j) (x # xs))
                = elemText j x @ separator j @ ?tail"
      by (simp add: Cons)
    have len: "length (elemText j x) \<le> m" "length ?tail < m"
      using Cons.prems(3) n unfolding jn by (simp_all add: separator_def)
    have sk: "skipWs ?r = ?r" by (simp add: skipWs_nonws isWs_simps)
    have ws': "\<forall>c\<in>set (CHR 0x0A # indentOf j). isWs c"
      using isWs_indent by (simp add: isWs_simps)
    have tl: "parseElements m ((CHR 0x0A # indentOf j) @ ?tail @ ?end) (acc @ [parsedForm x])
                = Some (Arr ((acc @ [parsedForm x]) @ map parsedForm xs), rest)"
      unfolding Cons [symmetric]
      by (rule Cons.IH) (use Cons ws' len Cons.prems(4) in auto)
    have whole: "ws @ join (separator j) (map (elemText j) (x # xs)) @ ?end
                   = ws @ elemText j x @ ?r"
      unfolding jn by (simp add: separator_def)
    show ?thesis
      unfolding whole n
      using pv [of ?r, OF okRest_simps(1) len(1)] sk tl
      by simp
  qed
qed

lemma parseMembers_join:
  assumes IH: "\<And>kv n k rest ws. kv \<in> set kvs \<Longrightarrow> okRest rest \<Longrightarrow> \<forall>c\<in>set ws. isWs c
            \<Longrightarrow> length (elemText k (snd kv)) \<le> n
            \<Longrightarrow> parseValue n (ws @ elemText k (snd kv) @ rest) = Some (parsedForm (snd kv), rest)"
  shows "kvs \<noteq> [] \<Longrightarrow> \<forall>c\<in>set ws. isWs c
    \<Longrightarrow> length (join (separator j) (map (memberText j) kvs)) < n
    \<Longrightarrow> parseMembers n (ws @ join (separator j) (map (memberText j) kvs)
                              @ CHR 0x0A # indentOf k @ CHR ''}'' # rest) acc
          = Some (Obj (acc @ map (\<lambda>kv. (fst kv, parsedForm (snd kv))) kvs), rest)"
  using IH
proof (induction kvs arbitrary: n ws acc)
  case Nil
  then show ?case by simp
next
  case (Cons kv kvs)
  from Cons.prems(3) obtain m where n: "n = Suc m" by (cases n) auto
  let ?key = "concat (map quoteChar (fst kv))"
  let ?val = "elemText j (snd kv)"
  have mt: "memberText j kv = CHR 0x22 # ?key @ CHR 0x22 # CHR '':'' # CHR '' '' # ?val"
    by (simp add: memberText_def quoteJSONString_def)
  have pv: "parseValue m ([CHR '' ''] @ ?val @ r) = Some (parsedForm (snd kv), r)"
    if "okRest r" "length ?val \<le> m" for r
    using Cons.prems(4) [of kv r "[CHR '' '']" j m] that by (simp add: isWs_simps)
  have step: "parseMembers (Suc m) (ws @ memberText j kv @ r) acc
                = (case skipWs r of
                     [] \<Rightarrow> None
                   | c # cs \<Rightarrow>
                       if c = CHR '','' then parseMembers m cs (acc @ [(fst kv, parsedForm (snd kv))])
                       else if c = CHR ''}'' then Some (Obj (acc @ [(fst kv, parsedForm (snd kv))]), cs)
                       else None)"
    if "okRest r" "length ?val \<le> m" for r
  proof -
    have a: "skipWs (ws @ memberText j kv @ r)
               = CHR 0x22 # ?key @ CHR 0x22 # CHR '':'' # CHR '' '' # ?val @ r"
      using skipWs_append [OF Cons.prems(2), of "CHR 0x22"] by (simp add: mt isWs_simps)
    have b: "parseChars (?key @ CHR 0x22 # CHR '':'' # CHR '' '' # ?val @ r) []
               = Some (fst kv, CHR '':'' # CHR '' '' # ?val @ r)"
      using parseChars_quoted [of "fst kv" "CHR '':'' # CHR '' '' # ?val @ r" "[]"] by simp
    have c: "skipWs (CHR '':'' # CHR '' '' # ?val @ r) = CHR '':'' # CHR '' '' # ?val @ r"
      by (simp add: skipWs_nonws isWs_simps)
    show ?thesis
      using pv [OF that] by (simp add: a b c)
  qed
  show ?case
  proof (cases kvs)
    case Nil
    let ?r = "CHR 0x0A # indentOf k @ CHR ''}'' # rest"
    have len: "length ?val \<le> m" using Cons.prems(3) n Nil by (simp add: mt)
    have sk: "skipWs ?r = CHR ''}'' # rest"
      using skipWs_append [of "CHR 0x0A # indentOf k" "CHR ''}''" rest] isWs_indent
      by (simp add: isWs_simps)
    have "parseMembers (Suc m) (ws @ memberText j kv @ ?r) acc
            = Some (Obj (acc @ [(fst kv, parsedForm (snd kv))]), rest)"
      using step [OF okRest_simps(2) len] sk
      by (simp del: parseValue.simps parseElements.simps parseMembers.simps)
    then show ?thesis by (simp add: n Nil del: parseValue.simps parseElements.simps parseMembers.simps)
  next
    case (Cons kv2 kvs2)
    let ?tail = "join (separator j) (map (memberText j) (kv2 # kvs2))"
    let ?end = "CHR 0x0A # indentOf k @ CHR ''}'' # rest"
    let ?r = "CHR '','' # (CHR 0x0A # indentOf j) @ ?tail @ ?end"
    have jn: "join (separator j) (map (memberText j) (kv # kvs))
                = memberText j kv @ separator j @ ?tail"
      by (simp add: Cons)
    have len: "length ?val \<le> m" "length ?tail < m"
      using Cons.prems(3) n unfolding jn by (simp_all add: separator_def mt)
    have sk: "skipWs ?r = ?r" by (simp add: skipWs_nonws isWs_simps)
    have ws': "\<forall>c\<in>set (CHR 0x0A # indentOf j). isWs c"
      using isWs_indent by (simp add: isWs_simps)
    have tl: "parseMembers m ((CHR 0x0A # indentOf j) @ ?tail @ ?end)
                (acc @ [(fst kv, parsedForm (snd kv))])
                = Some (Obj ((acc @ [(fst kv, parsedForm (snd kv))])
                         @ map (\<lambda>kv. (fst kv, parsedForm (snd kv))) kvs), rest)"
      unfolding Cons [symmetric]
      by (rule Cons.IH) (use Cons ws' len Cons.prems(4) in auto)
    have whole: "ws @ join (separator j) (map (memberText j) (kv # kvs)) @ ?end
                   = ws @ memberText j kv @ ?r"
      unfolding jn by (simp add: separator_def)
    have "parseMembers (Suc m) (ws @ memberText j kv @ ?r) acc
            = (case skipWs ?r of
                 [] \<Rightarrow> None
               | c # cs \<Rightarrow>
                   if c = CHR '','' then parseMembers m cs (acc @ [(fst kv, parsedForm (snd kv))])
                   else if c = CHR ''}'' then Some (Obj (acc @ [(fst kv, parsedForm (snd kv))]), cs)
                   else None)"
      by (rule step [OF okRest_simps(1) len(1)])
    also have "\<dots> = parseMembers m ((CHR 0x0A # indentOf j) @ ?tail @ ?end)
                        (acc @ [(fst kv, parsedForm (snd kv))])"
      unfolding sk by simp
    also note tl
    finally show ?thesis
      unfolding whole n by simp
  qed
qed

lemma snd_in_snds: "snd kv \<in> Basic_BNFs.snds kv"
  by (cases kv) simp

lemma parseValue_bracket:
  "\<forall>c\<in>set ws. isWs c \<Longrightarrow> skipWs cs = d # ds \<Longrightarrow> d \<noteq> CHR '']''
   \<Longrightarrow> parseValue (Suc m) (ws @ CHR ''['' # cs) = parseElements m cs []"
  by (simp add: skipWs_append isWs_simps)

lemma parseValue_brace:
  "\<forall>c\<in>set ws. isWs c \<Longrightarrow> skipWs cs = d # ds \<Longrightarrow> d \<noteq> CHR ''}''
   \<Longrightarrow> parseValue (Suc m) (ws @ CHR ''{'' # cs) = parseMembers m cs []"
  by (simp add: skipWs_append isWs_simps)

lemma parseValue_elemText:
  "okRest rest \<Longrightarrow> \<forall>c\<in>set ws. isWs c \<Longrightarrow> length (elemText k v) \<le> n
   \<Longrightarrow> parseValue n (ws @ elemText k v @ rest) = Some (parsedForm v, rest)"
proof (induction v arbitrary: n k rest ws)
  case Undefined
  then obtain m where "n = Suc m" by (cases n) (auto simp: elemText_def)
  with Undefined show ?case
    by (simp add: elemText_def skipWs_append isWs_simps isWs_def stripPrefix_def)
next
  case Null
  then obtain m where "n = Suc m" by (cases n) (auto simp: elemText_def)
  with Null show ?case
    by (simp add: elemText_def skipWs_append isWs_simps isWs_def stripPrefix_def)
next
  case (Bool b)
  then obtain m where "n = Suc m" by (cases n; cases b) (auto simp: elemText_def)
  with Bool show ?case
    by (cases b) (simp_all add: elemText_def skipWs_append isWs_simps isWs_def stripPrefix_def)
next
  case (Num i)
  then obtain m where n: "n = Suc m" using showInt_start [of i] by (cases n) (auto simp: elemText_def)
  obtain c cs where c: "showInt i = c # cs" "isDigit c \<or> c = CHR ''-''"
    using showInt_start by blast
  have sk: "skipWs (ws @ c # cs @ rest) = c # cs @ rest"
    using skipWs_append [OF Num.prems(2)] numStart [OF c(2)] by simp
  have "parseNumber (c # cs @ rest) = Some (Num i, rest)"
    using parseNumber_showInt [OF Num.prems(1), of i] c(1) by simp
  then show ?case
    using numStart [OF c(2)] by (simp add: n elemText_def c(1) sk)
next
  case (Str s)
  then obtain m where n: "n = Suc m" by (cases n) (auto simp: elemText_def quoteJSONString_def)
  have sk: "skipWs (ws @ CHR 0x22 # concat (map quoteChar s) @ CHR 0x22 # rest)
              = CHR 0x22 # concat (map quoteChar s) @ CHR 0x22 # rest"
    using skipWs_append [OF Str.prems(2)] by (simp add: isWs_simps)
  show ?case
    by (simp add: n elemText_def quoteJSONString_def sk parseChars_quoted)
next
  case (Arr xs)
  show ?case
  proof (cases "xs = []")
    case True
    with Arr.prems obtain m where n: "n = Suc m" by (cases n) (auto simp: elemText_Arr)
    have sk: "skipWs (ws @ CHR ''['' # CHR '']'' # rest) = CHR ''['' # CHR '']'' # rest"
      using skipWs_append [OF Arr.prems(2)] by (simp add: isWs_simps)
    show ?thesis
      by (simp add: True n elemText_Arr sk skipWs_nonws isWs_simps)
  next
    case False
    let ?J = "join (separator (Suc k)) (map (elemText (Suc k)) xs)"
    let ?cs = "(CHR 0x0A # indentOf (Suc k)) @ ?J @ CHR 0x0A # indentOf k @ CHR '']'' # rest"
    have shape: "ws @ elemText k (Arr xs) @ rest = ws @ CHR ''['' # ?cs"
      using False by (simp add: elemText_Arr)
    from Arr.prems(3) False obtain m where n: "n = Suc m" and len: "length ?J < m"
      by (cases n) (auto simp: elemText_Arr)
    have ws': "\<forall>c\<in>set (CHR 0x0A # indentOf (Suc k)). isWs c"
      using isWs_indent by (simp add: isWs_simps)
    obtain c1 r1 where c1: "?J = c1 # r1" "valueStart c1"
      using join_map_start [OF False, of "separator (Suc k)" "elemText (Suc k)"]
        elemText_start [of "Suc k" "hd xs"] by auto
    have sk2: "skipWs ?cs = c1 # r1 @ CHR 0x0A # indentOf k @ CHR '']'' # rest"
      using skipWs_append [OF ws', of c1] c1 by (simp add: valueStart_def)
    have el: "parseElements m ?cs [] = Some (Arr ([] @ map parsedForm xs), rest)"
      by (rule parseElements_join [OF Arr.IH False ws' len])
    have "c1 \<noteq> CHR '']''" using c1(2) by (simp add: valueStart_def)
    from parseValue_bracket [OF Arr.prems(2) sk2 this, of m] el
    show ?thesis
      unfolding shape n by simp
  qed
next
  case (Obj kvs)
  let ?kvs = "filter (\<lambda>kv. snd kv \<noteq> Undefined) kvs"
  show ?case
  proof (cases "?kvs = []")
    case True
    with Obj.prems obtain m where n: "n = Suc m" by (cases n) (auto simp: elemText_Obj)
    have sk: "skipWs (ws @ CHR ''{'' # CHR ''}'' # rest) = CHR ''{'' # CHR ''}'' # rest"
      using skipWs_append [OF Obj.prems(2)] by (simp add: isWs_simps)
    show ?thesis
      using True by (simp add: n elemText_Obj sk skipWs_nonws isWs_simps)
  next
    case False
    let ?J = "join (separator (Suc k)) (map (memberText (Suc k)) ?kvs)"
    let ?cs = "(CHR 0x0A # indentOf (Suc k)) @ ?J @ CHR 0x0A # indentOf k @ CHR ''}'' # rest"
    have shape: "ws @ elemText k (Obj kvs) @ rest = ws @ CHR ''{'' # ?cs"
      using False by (simp add: elemText_Obj)
    from Obj.prems(3) False obtain m where n: "n = Suc m" and len: "length ?J < m"
      by (cases n) (auto simp: elemText_Obj)
    have ws': "\<forall>c\<in>set (CHR 0x0A # indentOf (Suc k)). isWs c"
      using isWs_indent by (simp add: isWs_simps)
    obtain r1 where c1: "?J = CHR 0x22 # r1"
      using join_map_start [OF False, of "separator (Suc k)" "memberText (Suc k)"]
      by (auto simp: memberText_def quoteJSONString_def)
    have sk2: "skipWs ?cs = CHR 0x22 # r1 @ CHR 0x0A # indentOf k @ CHR ''}'' # rest"
      using skipWs_append [OF ws', of "CHR 0x22"] c1 by (simp add: isWs_simps)
    have IH: "parseValue n (ws @ elemText k (snd kv) @ rest) = Some (parsedForm (snd kv), rest)"
      if "kv \<in> set ?kvs" "okRest rest" "\<forall>c\<in>set ws. isWs c" "length (elemText k (snd kv)) \<le> n"
      for kv n k rest ws
      using Obj.IH [of kv "snd kv" rest ws k n] that snd_in_snds [of kv] by auto
    have el: "parseMembers m ?cs []
                = Some (Obj ([] @ map (\<lambda>kv. (fst kv, parsedForm (snd kv))) ?kvs), rest)"
      by (rule parseMembers_join [OF IH False ws' len])
    have "CHR 0x22 \<noteq> CHR ''}''" by simp
    from parseValue_brace [OF Obj.prems(2) sk2 this, of m] el
    show ?thesis
      unfolding shape n by simp
  qed
qed

lemma JSON_parse_stringify:
  assumes "v \<noteq> Undefined"
  shows "\<exists>s. JSON_stringify v = Str s \<and> JSON_parse s = Some (parsedForm v)"
proof -
  from assms obtain s where t: "serializeJSONProperty 0 v = Some s"
    using serialize_None [of 0 v] by (cases "serializeJSONProperty 0 v") auto
  then have e: "elemText 0 v = s" by (simp add: elemText_def)
  have "parseValue (length s) ([] @ elemText 0 v @ []) = Some (parsedForm v, [])"
    by (rule parseValue_elemText) (simp_all add: okRest_def e)
  then have "JSON_parse s = Some (parsedForm v)"
    by (simp add: JSON_parse_def e skipWs_def)
  with t show ?thesis by (simp add: JSON_stringify_def)
qed

subsection \<open>The classifier\<close>

text \<open>
  Claim C1. On every element node (one that has a tag name, and whose \<^verbatim>\<open>type\<close> is a
  string or absent) \<^verbatim>\<open>getEventObjectType\<close> returns a label without raising, and the
  label is the one the two tables of the specification give: for the tags input,
  textarea and select, DROP_DOWN on select and otherwise the entry of the lower-cased
  subtype in the first table, INPUT_FIELD when there is no entry or no subtype; for any
  other tag its entry in the second table, ELEMENT when there is none. The label is one of
  the fixed labels.
\<close>

theorem getEventObjectType_classifies:
  assumes tag: "tagName element = Some t"
    and ty: "type_prop element = Undefined \<or> type_prop element = Null
             \<or> (\<exists>s. type_prop element = Str s)"
  shows "getEventObjectType element
           = Inr (classify_spec (lowerStr t) (subtypeOf (type_prop element)))
         \<and> classify_spec (lowerStr t) (subtypeOf (type_prop element)) \<in> set categoryLabels"
proof -
  have eq: "getEventObjectType element
           = Inr (classify_spec (lowerStr t) (subtypeOf (type_prop element)))"
    using tag ty
    by (auto simp: getEventObjectType_def tagNameV_def classify_spec_def
        inputTypeSwitch_table inputTypeSwitch_absent tagSwitch_table)
  have "l \<in> set categoryLabels" if "getEventObjectType element = Inr l" for l
    using that dropDown_label
    by (auto simp: getEventObjectType_def inputTypeSwitch_label tagSwitch_label
         split: sum.splits if_splits)
  with eq show ?thesis by auto
qed

theorem getEventObjectType_classifies_witness:
  "getEventObjectType ((elementNode ''INPUT'' None [])\<lparr>type_prop := Str ''Checkbox''\<rparr>)
     = Inr ''CHECKBOX''"
  using getEventObjectType_classifies
    [of "(elementNode ''INPUT'' None [])\<lparr>type_prop := Str ''Checkbox''\<rparr>" "''INPUT''"]
  by (simp add: classify_spec_def lower_simps subtypeTable_def elementNode_def blankNode_def)

subsection \<open>The CSS selector\<close>

text \<open>
  Claim C2, as amended. For every element with no id and an empty \<^verbatim>\<open>className\<close>,
  \<^verbatim>\<open>getCssSelector\<close> returns the segments of the walk joined by \<^verbatim>\<open>" > "\<close>, ancestor
  first. Each level that has a parent element and no id gives \<open>tag\<close>, or
  \<open>tag:nth-of-type(n)\<close> when its 1-based index \<open>n\<close> among the preceding element siblings
  of the same tag name is above 1; the first level that has an id and a parent element
  ends the walk as \<open>tag#id\<close>; an element without a parent element ends the walk and
  gives no segment. One unit of fuel per segment and one more are enough. For the third
  of three list items in a list the last segment is \<open>li:nth-of-type(3)\<close>.
\<close>

theorem getCssSelector_walk:
  assumes "\<not> truthy (id_prop (nodes doc e))" and "\<not> truthy (className (nodes doc e))"
    and "cssSegments doc e segs" and "length segs < fuel"
  shows "getCssSelector fuel doc e = Some (Inr (join '' > '' segs))"
  using assms cssWalk_segments [of doc e segs fuel "[]"]
  by (simp add: getCssSelector_def Let_def)

theorem getCssSelector_walk_witness:
  "getCssSelector 4 listDoc 7 = Some (Inr ''body > ul > li:nth-of-type(3)'')"
  using getCssSelector_walk [OF _ _ listDoc_segments, of 4]
  by (simp add: doc_simps)

text \<open>
  Claim C2 as the specification states it fails where the first ancestor with an id is
  the root element: for the division of \<^verbatim>\<open><html id="r"><body><div/></body></html>\<close>
  the stated walk gives \<open>html#r > body > div\<close>, the code returns \<open>body > div\<close>.
\<close>

theorem getCssSelector_root_id_counterexample:
  "cssSegments_claimed rootIdDoc 3 [''html#r'', ''body'', ''div'']
   \<and> getCssSelector 4 rootIdDoc 3
       \<noteq> Some (Inr (join '' > '' [''html#r'', ''body'', ''div'']))
   \<and> getCssSelector 4 rootIdDoc 3 = Some (Inr ''body > div'')"
proof -
  have 1: "cssSegments_claimed rootIdDoc 1
             [lowerStr ''HTML'' @ ''#'' @ toString (id_prop (nodes rootIdDoc 1))]"
    by (rule cssSegments_claimed.ClaimedAnchor) (simp_all add: doc_simps)
  have 2: "cssSegments_claimed rootIdDoc 2
             ([lowerStr ''HTML'' @ ''#'' @ toString (id_prop (nodes rootIdDoc 1))]
              @ [segment rootIdDoc 2 ''BODY''])"
    by (rule cssSegments_claimed.ClaimedLevel [OF _ _ _ 1]) (simp_all add: doc_simps)
  have 3: "cssSegments_claimed rootIdDoc 3
             (([lowerStr ''HTML'' @ ''#'' @ toString (id_prop (nodes rootIdDoc 1))]
              @ [segment rootIdDoc 2 ''BODY'']) @ [segment rootIdDoc 3 ''DIV''])"
    by (rule cssSegments_claimed.ClaimedLevel [OF _ _ _ 2]) (simp_all add: doc_simps)
  have "segment rootIdDoc 2 ''BODY'' = ''body''" "segment rootIdDoc 3 ''DIV'' = ''div''"
    "lowerStr ''HTML'' @ ''#'' @ toString (id_prop (nodes rootIdDoc 1)) = ''html#r''"
    by (simp_all add: segment_def nthOfType_def doc_simps lower_simps)
  with 3 have claimed: "cssSegments_claimed rootIdDoc 3 [''html#r'', ''body'', ''div'']"
    by simp
  have actual: "getCssSelector 4 rootIdDoc 3 = Some (Inr ''body > div'')"
    by (simp add: getCssSelector_def doc_simps eval_nat_numeral tagNameV_def lower_simps)
  from claimed actual show ?thesis by simp
qed

text \<open>
  Claim C3. For every element whose id is a non-empty string, \<^verbatim>\<open>getCssSelector\<close>
  returns exactly \<open>#id\<close>, with no fuel at all, so without a step of the ancestor walk,
  and \<^verbatim>\<open>getXPath\<close> returns exactly \<open>//*[@id="id"]\<close> in its first call, whatever the
  classes, the tag and the place of the element in the tree.
\<close>

theorem locators_of_id:
  assumes "id_prop (nodes doc e) = Str i" and "i \<noteq> []"
  shows "getCssSelector fuel doc e = Some (Inr (''#'' @ i))
         \<and> getXPath (Suc fuel) doc e = Some (Inr (Str (''//*[@id=\"'' @ i @ ''\"]'')))"
  using assms by (simp add: getCssSelector_def Let_def)

theorem locators_of_id_witness:
  "getCssSelector 0 rootIdDoc 1 = Some (Inr ''#r'')
   \<and> getXPath 1 rootIdDoc 1 = Some (Inr (Str ''//*[@id=\"r\"]''))"
  using locators_of_id [of rootIdDoc 1 "''r''" 0]
  by (simp add: doc_simps)

text \<open>
  Claim C7, at an input where the code departs from it. The SVG element of the example
  page has no id and the class list \<open>icon\<close>, so the claim gives the selector
  \<open>svg.icon\<close>. Its \<^verbatim>\<open>className\<close> is an object, which is truthy and has no method
  \<^verbatim>\<open>split\<close>: \<^verbatim>\<open>getCssSelector\<close> raises a TypeError and returns no selector.
\<close>

theorem getCssSelector_svg_class_raises:
  "tagName (nodes svgDoc 3) = Some ''svg'' \<and> \<not> truthy (id_prop (nodes svgDoc 3))
   \<and> classList (nodes svgDoc 3) = [''icon'']
   \<and> getCssSelector 4 svgDoc 3 = Some (Inl TypeError)"
proof -
  have "getCssSelector 4 svgDoc 3 = Some (Inl TypeError)"
    by (rule getCssSelector_object_className) (simp_all add: doc_simps)
  then show ?thesis
    by (simp add: doc_simps classList_def classAttribute_def isAsciiWhitespace_def)
qed

subsection \<open>The XPath\<close>

text \<open>
  Claim C4, at an input where the code departs from it. The root element of the example
  page has no id, is not the body, and stands in the child list of its parent, the
  document node. The document node has no path: \<^verbatim>\<open>getXPath\<close> returns \<^verbatim>\<open>undefined\<close> for
  it. The call on the root element concatenates that value and returns a string that
  begins with the word \<open>undefined\<close>, where the claim has the path of the parent followed
  by \<open>/html[1]\<close>.
\<close>

theorem getXPath_root_element_undefined_prefix:
  "tagName (nodes listDoc 1) = Some ''HTML'' \<and> \<not> truthy (id_prop (nodes listDoc 1))
   \<and> body listDoc \<noteq> Some 1 \<and> parentNode (nodes listDoc 1) = Some 0
   \<and> childNodes (nodes listDoc 0) = [1]
   \<and> getXPath 1 listDoc 0 = Some (Inr Undefined)
   \<and> getXPath 2 listDoc 1 = Some (Inr (Str ''undefined/html[1]''))"
  by (simp add: doc_simps eval_nat_numeral tagNameV_def lower_simps showNat.simps)

text \<open>
  Claim C8. For every element that has no parent node, no id and is not the body of the
  document, \<^verbatim>\<open>getXPath\<close> returns in its first call, raises nothing, and its result is
  \<^verbatim>\<open>undefined\<close>.
\<close>

theorem getXPath_detached:
  assumes "parentNode (nodes doc e) = None" and "\<not> truthy (id_prop (nodes doc e))"
    and "body doc \<noteq> Some e"
  shows "getXPath (Suc fuel) doc e = Some (Inr Undefined)"
  using assms by (simp add: Let_def)

theorem getXPath_detached_witness:
  "getXPath 1 detachedDoc 0 = Some (Inr Undefined)"
  using getXPath_detached [of detachedDoc 0 0]
  by (simp add: doc_simps)

subsection \<open>Termination of the locators\<close>

text \<open>
  Claim C9. For every element at depth \<open>k\<close> of a finite tree, the ancestor walk of
  \<^verbatim>\<open>getCssSelector\<close> and the recursion of \<^verbatim>\<open>getXPath\<close> both end: any fuel above \<open>k\<close>
  gives a result, so the number of loop iterations and the depth of the recursion are
  bounded by the depth of the element. Each step goes to the parent, which lies one level
  nearer to the root.
\<close>

theorem locators_terminate:
  assumes "hasDepth doc e k" and "k < fuel"
  shows "(\<exists>r. getCssSelector fuel doc e = Some r) \<and> (\<exists>r. getXPath fuel doc e = Some r)
    \<and> (\<forall>p. parentNode (nodes doc e) = Some p \<longrightarrow> (\<exists>j. k = Suc j \<and> hasDepth doc p j))"
proof -
  have "\<exists>r. getCssSelector fuel doc e = Some r"
    using cssWalk_terminates [OF assms, of "[]"]
    by (auto simp: getCssSelector_def Let_def split: jsv.splits sum.splits)
  moreover have "\<exists>r. getXPath fuel doc e = Some r"
    using getXPath_terminates [OF assms] .
  moreover have "\<forall>p. parentNode (nodes doc e) = Some p
                   \<longrightarrow> (\<exists>j. k = Suc j \<and> hasDepth doc p j)"
    using assms(1) by (auto elim: hasDepth_cases)
  ultimately show ?thesis by blast
qed

theorem locators_terminate_witness:
  "(\<exists>r. getCssSelector 5 listDoc 7 = Some r) \<and> (\<exists>r. getXPath 5 listDoc 7 = Some r)
   \<and> hasDepth listDoc 3 3"
  using locators_terminate [OF listDoc_depth, of 5]
  by (simp add: doc_simps)

subsection \<open>The throttle\<close>

text \<open>
  Claim C5. Take a throttled listener that wraps one of the three handlers with delay
  \<open>d\<close>, and two invocations of it of which the throttle accepts the first (as it does for
  a fresh closure, whose \<^verbatim>\<open>lastCall\<close> is 0, at any clock value from \<open>d\<close> on). If the
  second comes less than \<open>d\<close> milliseconds after the first, it changes nothing at all, so
  it is dropped and not kept for later, and exactly one record has been appended; if it
  comes more than \<open>d\<close> milliseconds after the first, two records have been appended. An
  invocation leaves the closure of every other listener as it was.
\<close>

theorem throttle_two_invocations:
  assumes th: "listeners pg name = Some th"
    and handler: "func th = handleScrollEvent \<or> func th = handleMouseMoveEvent
                  \<or> func th = handleResizeEvent"
    and first: "delay th \<le> dateNow ev1 - lastCall th"
  shows "(dateNow ev2 - dateNow ev1 < delay th \<longrightarrow>
            dispatch name ev2 event2 (dispatch name ev1 event1 pg) = dispatch name ev1 event1 pg
            \<and> length (events (tracker (dispatch name ev2 event2 (dispatch name ev1 event1 pg))))
                = length (events (tracker pg)) + 1)
    \<and> (delay th < dateNow ev2 - dateNow ev1 \<longrightarrow>
            length (events (tracker (dispatch name ev2 event2 (dispatch name ev1 event1 pg))))
                = length (events (tracker pg)) + 2)
    \<and> (\<forall>other. other \<noteq> name \<longrightarrow>
            listeners (dispatch name ev1 event1 pg) other = listeners pg other)"
proof -
  let ?pg1 = "dispatch name ev1 event1 pg"
  let ?th1 = "th\<lparr>lastCall := dateNow ev1\<rparr>"
  have pg1: "?pg1 = pg\<lparr>listeners := (listeners pg)(name \<mapsto> ?th1),
                        tracker := func th ev1 event1 (tracker pg)\<rparr>"
    using th first by (rule dispatch_accept)
  have th1: "listeners ?pg1 name = Some ?th1" by (simp add: pg1)
  have len1: "length (events (tracker ?pg1)) = length (events (tracker pg)) + 1"
    using handler_length [OF handler] by (simp add: pg1)
  have drop: "dispatch name ev2 event2 ?pg1 = ?pg1" if "dateNow ev2 - dateNow ev1 < delay th"
    using dispatch_drop [OF th1] that by simp
  have acc: "length (events (tracker (dispatch name ev2 event2 ?pg1)))
               = length (events (tracker pg)) + 2" if "delay th < dateNow ev2 - dateNow ev1"
  proof -
    have "delay ?th1 \<le> dateNow ev2 - lastCall ?th1" using that by simp
    from dispatch_accept [OF th1 this]
    have "tracker (dispatch name ev2 event2 ?pg1) = func th ev2 event2 (tracker ?pg1)"
      by simp
    then show ?thesis using handler_length [OF handler] len1 by simp
  qed
  have other: "\<forall>other. other \<noteq> name \<longrightarrow> listeners ?pg1 other = listeners pg other"
    by (simp add: pg1)
  from drop acc len1 other show ?thesis by simp
qed

theorem throttle_two_invocations_witness:
  "length (events (tracker (dispatch ''scroll'' (envAt 1700000000400) (eventAt 0)
      (dispatch ''scroll'' (envAt 1700000000000) (eventAt 0)
        (registerEventListeners trackerExample))))) = 1
   \<and> length (events (tracker (dispatch ''scroll'' (envAt 1700000000501) (eventAt 0)
      (dispatch ''scroll'' (envAt 1700000000000) (eventAt 0)
        (registerEventListeners trackerExample))))) = 2
   \<and> listeners (dispatch ''scroll'' (envAt 1700000000000) (eventAt 0)
        (registerEventListeners trackerExample)) ''resize''
      = listeners (registerEventListeners trackerExample) ''resize''"
proof -
  let ?pg = "registerEventListeners trackerExample"
  let ?th = "throttle handleScrollEvent 500"
  have th: "listeners ?pg ''scroll'' = Some ?th"
    by (simp add: registerEventListeners_def trackerExample_def)
  have handler: "func ?th = handleScrollEvent \<or> func ?th = handleMouseMoveEvent
                  \<or> func ?th = handleResizeEvent"
    by (simp add: throttle_def)
  have first: "delay ?th \<le> dateNow (envAt 1700000000000) - lastCall ?th"
    by (simp add: throttle_def envAt_def)
  have len0: "length (events (tracker ?pg)) = 0"
    by (simp add: registerEventListeners_def trackerExample_def)
  have d: "delay ?th = 500"
    "dateNow (envAt 1700000000400) - dateNow (envAt 1700000000000) = 400"
    "dateNow (envAt 1700000000501) - dateNow (envAt 1700000000000) = 501"
    by (simp_all add: throttle_def envAt_def)
  show ?thesis
    using throttle_two_invocations
            [OF th handler first, of "envAt 1700000000400" "eventAt 0" "eventAt 0"]
      throttle_two_invocations
            [OF th handler first, of "envAt 1700000000501" "eventAt 0" "eventAt 0"]
    unfolding len0 d by auto
qed

subsection \<open>The sentinel of the event records\<close>

text \<open>
  Claim C10. Whenever the click handler or the change handler stores a record, each
  field of its \<open>element\<close> part whose property on the element is absent or is the empty
  string holds the sentinel \<open>N/A\<close>: an empty value is recorded exactly as a missing one.
  For the click record the fields are id, className, text, href and type; for the change
  record they are id, name, type and value.
\<close>

theorem sentinel_for_empty_fields:
  "(handleClickEvent fuel doc ev event st = Some (Inr st') \<longrightarrow>
      (let el = nodes doc (target event);
           stored = getField ''element'' (last (events st')) in
       length (events st') = length (events st) + 1
       \<and> (absentOrEmpty (id_prop el) \<longrightarrow> getField ''id'' stored = Str ''N/A'')
       \<and> (absentOrEmpty (className el) \<longrightarrow> getField ''className'' stored = Str ''N/A'')
       \<and> (absentOrEmpty (innerText el) \<longrightarrow> getField ''text'' stored = Str ''N/A'')
       \<and> (absentOrEmpty (href el) \<longrightarrow> getField ''href'' stored = Str ''N/A'')
       \<and> (absentOrEmpty (type_prop el) \<longrightarrow> getField ''type'' stored = Str ''N/A'')))
   \<and> (handleChangeEvent doc ev event st = Inr st'' \<longrightarrow>
      (let el = nodes doc (target event);
           stored = getField ''element'' (last (events st'')) in
       length (events st'') = length (events st) + 1
       \<and> (absentOrEmpty (id_prop el) \<longrightarrow> getField ''id'' stored = Str ''N/A'')
       \<and> (absentOrEmpty (name_prop el) \<longrightarrow> getField ''name'' stored = Str ''N/A'')
       \<and> (absentOrEmpty (type_prop el) \<longrightarrow> getField ''type'' stored = Str ''N/A'')
       \<and> (absentOrEmpty (value_prop el) \<longrightarrow> getField ''value'' stored = Str ''N/A'')))"
proof (intro conjI impI)
  assume "handleClickEvent fuel doc ev event st = Some (Inr st')"
  then obtain eventObject tag shown cssSelector xpath where
    t: "optSubstring50 (innerText (nodes doc (target event))) = Inr shown"
    and r: "events st' = events st @
       [clickEvent ev event st (nodes doc (target event)) eventObject tag shown
          cssSelector xpath]"
    by (rule handleClickEvent_record)
  show "let el = nodes doc (target event);
           stored = getField ''element'' (last (events st')) in
       length (events st') = length (events st) + 1
       \<and> (absentOrEmpty (id_prop el) \<longrightarrow> getField ''id'' stored = Str ''N/A'')
       \<and> (absentOrEmpty (className el) \<longrightarrow> getField ''className'' stored = Str ''N/A'')
       \<and> (absentOrEmpty (innerText el) \<longrightarrow> getField ''text'' stored = Str ''N/A'')
       \<and> (absentOrEmpty (href el) \<longrightarrow> getField ''href'' stored = Str ''N/A'')
       \<and> (absentOrEmpty (type_prop el) \<longrightarrow> getField ''type'' stored = Str ''N/A'')"
    using substring_sentinel [OF _ t]
    by (simp add: r Let_def orElse_sentinel clickEvent_def)
next
  assume "handleChangeEvent doc ev event st = Inr st''"
  then obtain eventObject tag val where
    t: "optSubstring50 (value_prop (nodes doc (target event))) = Inr val"
    and r: "events st'' = events st
              @ [changeEvent ev (nodes doc (target event)) eventObject tag val]"
    by (rule handleChangeEvent_record)
  show "let el = nodes doc (target event);
           stored = getField ''element'' (last (events st'')) in
       length (events st'') = length (events st) + 1
       \<and> (absentOrEmpty (id_prop el) \<longrightarrow> getField ''id'' stored = Str ''N/A'')
       \<and> (absentOrEmpty (name_prop el) \<longrightarrow> getField ''name'' stored = Str ''N/A'')
       \<and> (absentOrEmpty (type_prop el) \<longrightarrow> getField ''type'' stored = Str ''N/A'')
       \<and> (absentOrEmpty (value_prop el) \<longrightarrow> getField ''value'' stored = Str ''N/A'')"
    using substring_sentinel [OF _ t]
    by (simp add: r Let_def orElse_sentinel changeEvent_def)
qed

theorem sentinel_for_empty_fields_witness:
  "getField ''className'' (getField ''element'' (last (events
      (trackerExample\<lparr>events :=
         [clickEvent (envAt 1700000000000) (eventAt 4) trackerExample (nodes formDoc 4)
            ''TEXT_FIELD'' ''input'' (Str []) ''body > input''
            (Str ''/html/body/input[1]'')]\<rparr>)))) = Str ''N/A''
   \<and> getField ''value'' (getField ''element'' (last (events
      (trackerExample\<lparr>events :=
         [changeEvent (envAt 1700000000000) (nodes formDoc 4) ''TEXT_FIELD'' ''input''
            (Str [])]\<rparr>)))) = Str ''N/A''"
  using sentinel_for_empty_fields [of 4 formDoc "envAt 1700000000000" "eventAt 4"
      trackerExample
      "trackerExample\<lparr>events :=
         [clickEvent (envAt 1700000000000) (eventAt 4) trackerExample (nodes formDoc 4)
            ''TEXT_FIELD'' ''input'' (Str []) ''body > input''
            (Str ''/html/body/input[1]'')]\<rparr>"
      "trackerExample\<lparr>events :=
         [changeEvent (envAt 1700000000000) (nodes formDoc 4) ''TEXT_FIELD'' ''input''
            (Str [])]\<rparr>"]
    formDoc_click formDoc_change
  by (simp add: Let_def absentOrEmpty_def eventAt_def doc_simps)

subsection \<open>The export\<close>

text \<open>
  Claim C6. For every state of the tracker, \<^verbatim>\<open>exportEventsAsJSON\<close> returns a string,
  and parsing that string gives a document whose \<open>events\<close> field is an array with as
  many entries as the tracker holds events, and whose \<open>session\<close> field carries the
  session identifier of the tracker.
\<close>

theorem export_round_trip:
  "\<exists>s doc es. exportEventsAsJSON ev st = Str s \<and> JSON_parse s = Some doc
     \<and> getField ''events'' doc = Arr es \<and> length es = length (events st)
     \<and> getField ''sessionId'' (getField ''session'' doc) = optStr (sessionId (session st))"
proof -
  let ?data = "Obj [(''session'', sessionObject (session st)),
                    (''events'', Arr (events st)),
                    (''exportTime'', Str (isoString ev))]"
  obtain s where s: "JSON_stringify ?data = Str s" "JSON_parse s = Some (parsedForm ?data)"
    using JSON_parse_stringify [of ?data] by auto
  have ev: "getField ''events'' (parsedForm ?data) = Arr (map parsedForm (events st))"
    by simp
  have sid: "getField ''sessionId'' (getField ''session'' (parsedForm ?data))
               = optStr (sessionId (session st))"
    by (cases "sessionId (session st)") (simp_all add: sessionObject_def optStr_def)
  from s ev sid show ?thesis
    unfolding exportEventsAsJSON_def by (intro exI [of _ s] exI [of _ "parsedForm ?data"]
      exI [of _ "map parsedForm (events st)"]) simp
qed

theorem export_round_trip_witness:
  "\<exists>s doc es. exportEventsAsJSON (envAt 1700000000000)
                  (handleResizeEvent (envAt 1700000000000) (eventAt 0) trackerExample) = Str s
     \<and> JSON_parse s = Some doc \<and> getField ''events'' doc = Arr es \<and> length es = 1
     \<and> getField ''sessionId'' (getField ''session'' doc)
         = Str ''session_1700000000000_k3j9x0a1b''"
  using export_round_trip [of "envAt 1700000000000"
      "handleResizeEvent (envAt 1700000000000) (eventAt 0) trackerExample"]
  by (simp add: handleResizeEvent_def trackerExample_def optStr_def)

end
